theory Spec2Isabelle
  imports Complex_Main "HOL-Library.Finite_Map" "HOL-Library.AList"
begin

section \<open>JSON values and the JavaScript operations the handlers apply to them\<close>

text \<open>
  The request handlers of the server (\<^verbatim>\<open>app.get\<close>, \<^verbatim>\<open>app.post\<close>, \<^verbatim>\<open>app.put\<close>,
  \<^verbatim>\<open>app.delete\<close> on the routes under \<^verbatim>\<open>/make-server-cd7e5f90\<close>) work on untyped values
  (\<^verbatim>\<open>any\<close>): request bodies parsed by \<^verbatim>\<open>c.req.json()\<close> and records read from the
  key-value store. Both are JSON, so a value is one of the six JSON shapes. An object is a
  finite map from property names to values (property order is not observable through the
  handlers). A number is the rational value of a finite double, the only numbers a JSON
  text within the range of the doubles parses to. A string is the list of its code units,
  a character of HOL standing for one code unit.
  The JavaScript value \<^verbatim>\<open>undefined\<close> is \<open>None\<close> of \<open>json option\<close>; a property whose value
  is \<^verbatim>\<open>undefined\<close> is absent from every serialised object, so an object never holds it.
\<close>

datatype json =
    JNull
  | JBool bool
  | JNum rat
  | JStr string
  | JArr "json list"
  | JObj "(string, json) fmap"

text \<open>
  Every exception raised inside a handler is caught by its \<^verbatim>\<open>try/catch\<close> and answered
  with status 500; the other error answers are the explicit early returns
  (400, 401, 403, 404).
\<close>

datatype error =
    ValidationError        \<comment> \<open>400\<close>
  | AuthenticationError    \<comment> \<open>401\<close>
  | AuthorizationError     \<comment> \<open>403\<close>
  | NotFoundError          \<comment> \<open>404\<close>
  | InternalError          \<comment> \<open>500, from the \<^verbatim>\<open>catch\<close> block\<close>

text \<open>What \<^verbatim>\<open>verifyAuth\<close> returns when the identity provider accepts the bearer token.\<close>

record auth_user =
  user_id :: string
  email :: "string option"

subsection \<open>Truthiness, \<^verbatim>\<open>||\<close>, decimal rendering\<close>

fun truthy :: "json \<Rightarrow> bool" where
  "truthy JNull = False"
| "truthy (JBool b) = b"
| "truthy (JNum n) = (n \<noteq> 0)"
| "truthy (JStr s) = (s \<noteq> [])"
| "truthy (JArr xs) = True"
| "truthy (JObj m) = True"

definition truthy_opt :: "json option \<Rightarrow> bool" where
  "truthy_opt v = (case v of None \<Rightarrow> False | Some j \<Rightarrow> truthy j)"

definition js_or :: "json option \<Rightarrow> json option \<Rightarrow> json option" where
  "js_or a b = (if truthy_opt a then a else b)"

definition or_default :: "json option \<Rightarrow> json \<Rightarrow> json" where
  "or_default a d = (case a of None \<Rightarrow> d | Some v \<Rightarrow> if truthy v then v else d)"

definition digit_char :: "nat \<Rightarrow> char" where
  "digit_char d = ''0123456789'' ! d"

fun show_nat :: "nat \<Rightarrow> string" where
  "show_nat n = (if n < 10 then [digit_char n] else show_nat (n div 10) @ [digit_char (n mod 10)])"

declare show_nat.simps [simp del]

subsection \<open>Own properties, property reads, object spread\<close>

text \<open>
  \<^verbatim>\<open>{...v}\<close> copies the own enumerable properties of \<open>v\<close>: the entries of an object, the
  indexed elements of an array, the indexed one-character strings of a string, and nothing
  for \<^verbatim>\<open>null\<close>, a number or a boolean.
\<close>

definition indexed :: "json list \<Rightarrow> (string, json) fmap" where
  "indexed xs = fmap_of_list (zip (map show_nat [0..<length xs]) xs)"

fun own_props :: "json \<Rightarrow> (string, json) fmap" where
  "own_props (JObj m) = m"
| "own_props (JArr xs) = indexed xs"
| "own_props (JStr s) = indexed (map (\<lambda>c. JStr [c]) s)"
| "own_props JNull = fmempty"
| "own_props (JBool b) = fmempty"
| "own_props (JNum n) = fmempty"

text \<open>
  \<^verbatim>\<open>v.k\<close>: a \<^verbatim>\<open>TypeError\<close> on \<^verbatim>\<open>null\<close>, otherwise the own property or \<^verbatim>\<open>undefined\<close>.
  The handlers read only the names \<^verbatim>\<open>status\<close>, \<^verbatim>\<open>categories\<close>, \<^verbatim>\<open>tags\<close>, \<^verbatim>\<open>title\<close>,
  \<^verbatim>\<open>content\<close>, \<^verbatim>\<open>excerpt\<close>, \<^verbatim>\<open>featured\<close>, \<^verbatim>\<open>createdAt\<close>, \<^verbatim>\<open>authorId\<close>, \<^verbatim>\<open>likes\<close>,
  \<^verbatim>\<open>role\<close>, \<^verbatim>\<open>username\<close>, \<^verbatim>\<open>image\<close>, none of which is inherited from a prototype.
\<close>

definition get_prop :: "json \<Rightarrow> string \<Rightarrow> error + json option" where
  "get_prop v k = (if v = JNull then Inl InternalError else Inr (fmlookup (own_props v) k))"

text \<open>\<^verbatim>\<open>v?.k\<close> on a value that may be \<^verbatim>\<open>undefined\<close> or \<^verbatim>\<open>null\<close>.\<close>

definition opt_prop :: "json option \<Rightarrow> string \<Rightarrow> json option" where
  "opt_prop v k = (case v of None \<Rightarrow> None | Some j \<Rightarrow> fmlookup (own_props j) k)"

text \<open>
  An object literal whose property values may be \<^verbatim>\<open>undefined\<close>, as serialised by
  \<^verbatim>\<open>c.json\<close> and by the store: the undefined ones are dropped.
\<close>

definition mk_obj :: "(string \<times> json option) list \<Rightarrow> json" where
  "mk_obj kvs = JObj (fmap_of_list (List.map_filter (\<lambda>(k, v). map_option (Pair k) v) kvs))"

subsection \<open>The key-value store\<close>

text \<open>
  Modelled from the spec: the module \<^verbatim>\<open>kv_store.tsx\<close> (\<^verbatim>\<open>kv.get\<close>, \<^verbatim>\<open>kv.set\<close>,
  \<^verbatim>\<open>kv.del\<close>, \<^verbatim>\<open>kv.getByPrefix\<close>) is imported by the server but is not among the sources.
  The spec describes it as a generic key-value namespace of opaque string keys and
  JSON values with get, set, delete and "list all entries whose key starts with a given
  prefix". The store is an association list with one binding per key; \<open>kv_set\<close> replaces
  the binding of a key or appends a new one, \<open>kv_getByPrefix\<close> lists the values in the
  order of the bindings.
\<close>

type_synonym store = "(string \<times> json) list"

definition starts_with :: "string \<Rightarrow> string \<Rightarrow> bool" where
  "starts_with s p = (take (length p) s = p)"

definition kv_get :: "store \<Rightarrow> string \<Rightarrow> json option" where
  "kv_get st k = map_of st k"

definition kv_set :: "store \<Rightarrow> string \<Rightarrow> json \<Rightarrow> store" where
  "kv_set st k v = AList.update k v st"

definition kv_del :: "store \<Rightarrow> string \<Rightarrow> store" where
  "kv_del st k = AList.delete k st"

definition kv_getByPrefix :: "store \<Rightarrow> string \<Rightarrow> json list" where
  "kv_getByPrefix st p = map snd (filter (\<lambda>(k, v). starts_with k p) st)"

section \<open>Post routes\<close>

subsection \<open>Create Post: \<^verbatim>\<open>app.post('/make-server-cd7e5f90/posts')\<close>\<close>

text \<open>\<^verbatim>\<open>s.substr(start, len)\<close> for non-negative arguments.\<close>

definition substr :: "nat \<Rightarrow> nat \<Rightarrow> string \<Rightarrow> string" where
  "substr start len s = take len (drop start s)"

text \<open>\<^verbatim>\<open>postData.content?.substring(0, 200)\<close>: calling a missing method is a \<^verbatim>\<open>TypeError\<close>.\<close>

definition content_substring :: "json option \<Rightarrow> error + json option" where
  "content_substring c =
     (case c of
        None \<Rightarrow> Inr None
      | Some JNull \<Rightarrow> Inr None
      | Some (JStr s) \<Rightarrow> Inr (Some (JStr (take 200 s)))
      | Some _ \<Rightarrow> Inl InternalError)"

text \<open>\<^verbatim>\<open>postData.excerpt || postData.content?.substring(0, 200)\<close>; the right operand is
  evaluated only when the left one is falsy.\<close>

definition excerpt_of :: "json \<Rightarrow> error + json option" where
  "excerpt_of postData =
     (let e = fmlookup (own_props postData) ''excerpt''
      in if truthy_opt e then Inr e
         else content_substring (fmlookup (own_props postData) ''content''))"

text \<open>
  The object literal \<^verbatim>\<open>newPost\<close>. \<open>postId\<close> is the generated id, \<open>t1\<close> and \<open>t2\<close> are the
  results of the two \<^verbatim>\<open>new Date().toISOString()\<close> calls.
\<close>

definition newPost :: "string \<Rightarrow> auth_user \<Rightarrow> json option \<Rightarrow> json \<Rightarrow> string \<Rightarrow> string
    \<Rightarrow> error + json" where
  "newPost postId user userData postData t1 t2 =
     (if postData = JNull then Inl InternalError
      else (case excerpt_of postData of
        Inl e \<Rightarrow> Inl e
      | Inr ex \<Rightarrow>
          let p = fmlookup (own_props postData)
          in Inr (mk_obj
            [(''id'', Some (JStr postId)),
             (''title'', p ''title''),
             (''content'', p ''content''),
             (''excerpt'', ex),
             (''authorId'', Some (JStr (user_id user))),
             (''authorName'', js_or (opt_prop userData ''username'') (map_option JStr (email user))),
             (''image'', Some (or_default (p ''image'') (JStr ''''))),
             (''tags'', Some (or_default (p ''tags'') (JArr []))),
             (''categories'', Some (or_default (p ''categories'') (JArr []))),
             (''status'', Some (or_default (p ''status'') (JStr ''published''))),
             (''featured'', Some (or_default (p ''featured'') (JBool False))),
             (''likes'', Some (JNum 0)),
             (''createdAt'', Some (JStr t1)),
             (''updatedAt'', Some (JStr t2))])))"

text \<open>
  The handler. \<open>now\<close> is \<^verbatim>\<open>Date.now()\<close>, \<open>rnd\<close> is \<^verbatim>\<open>Math.random().toString(36)\<close>,
  \<open>caller\<close> is the result of \<^verbatim>\<open>verifyAuth\<close> and \<open>body\<close> the result of \<^verbatim>\<open>c.req.json()\<close>
  (\<open>None\<close> when the body is not JSON, which raises).
\<close>

definition post_id :: "nat \<Rightarrow> string \<Rightarrow> string" where
  "post_id now rnd = ''post_'' @ show_nat now @ ''_'' @ substr 2 9 rnd"

definition create_post :: "nat \<Rightarrow> string \<Rightarrow> string \<Rightarrow> string \<Rightarrow> store \<Rightarrow> auth_user option
    \<Rightarrow> json option \<Rightarrow> store \<times> (error + json)" where
  "create_post now rnd t1 t2 st caller body =
     (case caller of
        None \<Rightarrow> (st, Inl AuthenticationError)
      | Some user \<Rightarrow>
          let userData = kv_get st (''users:'' @ user_id user)
          in (case body of
                None \<Rightarrow> (st, Inl InternalError)
              | Some postData \<Rightarrow>
                  let postId = post_id now rnd
                  in (case newPost postId user userData postData t1 t2 of
                        Inl e \<Rightarrow> (st, Inl e)
                      | Inr np \<Rightarrow> (kv_set st (''posts:'' @ postId) np, Inr np))))"

subsection \<open>Get Post: \<^verbatim>\<open>app.get('/make-server-cd7e5f90/posts/:id')\<close>\<close>

definition get_post :: "store \<Rightarrow> string \<Rightarrow> error + json" where
  "get_post st postId =
     (case kv_get st (''posts:'' @ postId) of
        None \<Rightarrow> Inl NotFoundError
      | Some post \<Rightarrow> if \<not> truthy post then Inl NotFoundError else Inr post)"

subsection \<open>Update Post: \<^verbatim>\<open>app.put('/make-server-cd7e5f90/posts/:id')\<close>\<close>

text \<open>\<^verbatim>\<open>currentPost.authorId !== user.id && userData?.role !== 'admin'\<close>, for a truthy
  \<^verbatim>\<open>currentPost\<close>.\<close>

definition forbidden :: "json \<Rightarrow> auth_user \<Rightarrow> json option \<Rightarrow> bool" where
  "forbidden post user userData =
     (fmlookup (own_props post) ''authorId'' \<noteq> Some (JStr (user_id user))
      \<and> opt_prop userData ''role'' \<noteq> Some (JStr ''admin''))"

text \<open>\<^verbatim>\<open>{ ...currentPost, ...updates, id: postId, updatedAt: new Date().toISOString() }\<close>\<close>

definition updatedPost :: "json \<Rightarrow> json \<Rightarrow> string \<Rightarrow> string \<Rightarrow> json" where
  "updatedPost currentPost updates postId t =
     JObj (fmupd ''updatedAt'' (JStr t)
            (fmupd ''id'' (JStr postId) (own_props currentPost ++\<^sub>f own_props updates)))"

definition update_post :: "string \<Rightarrow> store \<Rightarrow> auth_user option \<Rightarrow> string \<Rightarrow> json option
    \<Rightarrow> store \<times> (error + json)" where
  "update_post t st caller postId body =
     (case caller of
        None \<Rightarrow> (st, Inl AuthenticationError)
      | Some user \<Rightarrow>
          (case kv_get st (''posts:'' @ postId) of
             None \<Rightarrow> (st, Inl NotFoundError)
           | Some currentPost \<Rightarrow>
               if \<not> truthy currentPost then (st, Inl NotFoundError)
               else let userData = kv_get st (''users:'' @ user_id user)
                 in if forbidden currentPost user userData then (st, Inl AuthorizationError)
                    else (case body of
                            None \<Rightarrow> (st, Inl InternalError)
                          | Some updates \<Rightarrow>
                              let up = updatedPost currentPost updates postId t
                              in (kv_set st (''posts:'' @ postId) up, Inr up))))"

subsection \<open>Delete Post: \<^verbatim>\<open>app.delete('/make-server-cd7e5f90/posts/:id')\<close>\<close>

definition delete_post :: "store \<Rightarrow> auth_user option \<Rightarrow> string \<Rightarrow> store \<times> (error + json)" where
  "delete_post st caller postId =
     (case caller of
        None \<Rightarrow> (st, Inl AuthenticationError)
      | Some user \<Rightarrow>
          (case kv_get st (''posts:'' @ postId) of
             None \<Rightarrow> (st, Inl NotFoundError)
           | Some post \<Rightarrow>
               if \<not> truthy post then (st, Inl NotFoundError)
               else let userData = kv_get st (''users:'' @ user_id user)
                 in if forbidden post user userData then (st, Inl AuthorizationError)
                    else (kv_del st (''posts:'' @ postId),
                          Inr (mk_obj [(''message'', Some (JStr ''Post deleted successfully''))]))))"

subsection \<open>Adding one to a number\<close>

text \<open>
  \<^verbatim>\<open>x + 1\<close> on numbers is the double nearest to the exact sum, ties going to the even
  significand. A double \<open>x\<close> is \<open>p / q\<close> with \<open>q\<close> a power of two, so the exact sum is
  \<open>(p + q) / q\<close> and rounding it means rounding the numerator to 53 significant bits. The
  sum of a finite double and one neither overflows nor falls between two subnormal
  numbers, so no other rounding occurs.
\<close>

fun bit_length :: "nat \<Rightarrow> nat" where
  "bit_length n = (if n = 0 then 0 else Suc (bit_length (n div 2)))"

declare bit_length.simps [simp del]

definition round53 :: "int \<Rightarrow> int" where
  "round53 m =
     (let s = bit_length (nat \<bar>m\<bar>) - 53; q = m div 2 ^ s; r = m mod 2 ^ s
      in if s = 0 then m
         else if 2 ^ s < 2 * r \<or> (2 * r = 2 ^ s \<and> odd q) then (q + 1) * 2 ^ s
         else q * 2 ^ s)"

definition double_plus_one :: "rat \<Rightarrow> rat" where
  "double_plus_one x = (case quotient_of x of (p, q) \<Rightarrow> of_int (round53 (p + q)) / of_int q)"

subsection \<open>Like Post: \<^verbatim>\<open>app.post('/make-server-cd7e5f90/posts/:id/like')\<close>\<close>

text \<open>
  \<^verbatim>\<open>String(v)\<close> as the operator \<^verbatim>\<open>+\<close> and the default \<^verbatim>\<open>sort\<close> compute it. A number is
  rendered by \<open>numstr\<close>, the runtime's \<^verbatim>\<open>Number.prototype.toString\<close>. An array is
  joined with commas, \<^verbatim>\<open>null\<close> elements rendering as the empty string; a parsed object
  renders as \<^verbatim>\<open>[object Object]\<close> unless an own \<^verbatim>\<open>toString\<close> entry (never a function in
  JSON) shadows the inherited method, which is a \<^verbatim>\<open>TypeError\<close>.
\<close>

fun js_to_string :: "(rat \<Rightarrow> string) \<Rightarrow> json \<Rightarrow> error + string"
  and js_join :: "(rat \<Rightarrow> string) \<Rightarrow> json list \<Rightarrow> error + string" where
  "js_to_string numstr JNull = Inr ''null''"
| "js_to_string numstr (JBool b) = Inr (if b then ''true'' else ''false'')"
| "js_to_string numstr (JNum n) = Inr (numstr n)"
| "js_to_string numstr (JStr s) = Inr s"
| "js_to_string numstr (JArr xs) = js_join numstr xs"
| "js_to_string numstr (JObj m) =
     (if ''toString'' |\<in>| fmdom m then Inl InternalError else Inr ''[object Object]'')"
| "js_join numstr [] = Inr []"
| "js_join numstr (x # xs) =
     (case (if x = JNull then Inr [] else js_to_string numstr x) of
        Inl e \<Rightarrow> Inl e
      | Inr s \<Rightarrow>
          if xs = [] then Inr s
          else (case js_join numstr xs of Inl e \<Rightarrow> Inl e | Inr r \<Rightarrow> Inr (s @ '','' @ r)))"

text \<open>\<^verbatim>\<open>v + 1\<close>: addition of doubles, or concatenation when \<open>v\<close> converts to a string.\<close>

definition js_plus_one :: "(rat \<Rightarrow> string) \<Rightarrow> json \<Rightarrow> error + json" where
  "js_plus_one numstr v =
     (case v of
        JNum x \<Rightarrow> Inr (JNum (double_plus_one x))
      | JBool b \<Rightarrow> Inr (JNum (double_plus_one (if b then 1 else 0)))
      | JNull \<Rightarrow> Inr (JNum (double_plus_one 0))
      | JStr s \<Rightarrow> Inr (JStr (s @ ''1''))
      | _ \<Rightarrow> (case js_to_string numstr v of Inl e \<Rightarrow> Inl e | Inr s \<Rightarrow> Inr (JStr (s @ ''1''))))"

text \<open>
  \<^verbatim>\<open>rec.likes = (rec.likes || 0) + 1; await kv.set(key, rec); return c.json({ likes: rec.likes })\<close>
  for a truthy \<open>rec\<close>. The module is strict code, so the assignment raises on a string, a
  number or a boolean; on an array it sets a property that the serialisation drops.
\<close>

definition like_record :: "(rat \<Rightarrow> string) \<Rightarrow> store \<Rightarrow> string \<Rightarrow> json
    \<Rightarrow> store \<times> (error + json)" where
  "like_record numstr st key rec =
     (case js_plus_one numstr (or_default (fmlookup (own_props rec) ''likes'') (JNum 0)) of
        Inl e \<Rightarrow> (st, Inl e)
      | Inr v \<Rightarrow>
          (case rec of
             JObj m \<Rightarrow> (kv_set st key (JObj (fmupd ''likes'' v m)), Inr (mk_obj [(''likes'', Some v)]))
           | JArr xs \<Rightarrow> (kv_set st key rec, Inr (mk_obj [(''likes'', Some v)]))
           | _ \<Rightarrow> (st, Inl InternalError)))"

definition like_post :: "(rat \<Rightarrow> string) \<Rightarrow> store \<Rightarrow> string \<Rightarrow> store \<times> (error + json)" where
  "like_post numstr st postId =
     (case kv_get st (''posts:'' @ postId) of
        None \<Rightarrow> (st, Inl NotFoundError)
      | Some post \<Rightarrow>
          if \<not> truthy post then (st, Inl NotFoundError)
          else like_record numstr st (''posts:'' @ postId) post)"

subsection \<open>Like Comment: \<^verbatim>\<open>app.post('/make-server-cd7e5f90/comments/:id/like')\<close>\<close>

definition like_comment :: "(rat \<Rightarrow> string) \<Rightarrow> store \<Rightarrow> string
    \<Rightarrow> store \<times> (error + json)" where
  "like_comment numstr st commentId =
     (case kv_get st (''comments:'' @ commentId) of
        None \<Rightarrow> (st, Inl NotFoundError)
      | Some comment \<Rightarrow>
          if \<not> truthy comment then (st, Inl NotFoundError)
          else like_record numstr st (''comments:'' @ commentId) comment)"

text \<open>\<open>n\<close> Like calls one after the other on the same id, each on the store the previous
  one left.\<close>

fun like_post_times :: "(rat \<Rightarrow> string) \<Rightarrow> nat \<Rightarrow> store \<Rightarrow> string \<Rightarrow> store" where
  "like_post_times numstr 0 st postId = st"
| "like_post_times numstr (Suc n) st postId =
     like_post_times numstr n (fst (like_post numstr st postId)) postId"

fun like_comment_times :: "(rat \<Rightarrow> string) \<Rightarrow> nat \<Rightarrow> store \<Rightarrow> string \<Rightarrow> store" where
  "like_comment_times numstr 0 st commentId = st"
| "like_comment_times numstr (Suc n) st commentId =
     like_comment_times numstr n (fst (like_comment numstr st commentId)) commentId"

section \<open>User routes\<close>

subsection \<open>Update User: \<^verbatim>\<open>app.put('/make-server-cd7e5f90/user/:id')\<close>\<close>

definition update_user :: "store \<Rightarrow> auth_user option \<Rightarrow> string \<Rightarrow> json option
    \<Rightarrow> store \<times> (error + json)" where
  "update_user st caller userId body =
     (case caller of
        None \<Rightarrow> (st, Inl AuthenticationError)
      | Some user \<Rightarrow>
          if user_id user \<noteq> userId then (st, Inl AuthorizationError)
          else (case body of
                  None \<Rightarrow> (st, Inl InternalError)
                | Some updates \<Rightarrow>
                    (case kv_get st (''users:'' @ userId) of
                       None \<Rightarrow> (st, Inl NotFoundError)
                     | Some currentData \<Rightarrow>
                         if \<not> truthy currentData then (st, Inl NotFoundError)
                         else let updatedUser =
                                JObj (fmupd ''id'' (JStr userId)
                                       (own_props currentData ++\<^sub>f own_props updates))
                           in (kv_set st (''users:'' @ userId) updatedUser, Inr updatedUser))))"

section \<open>Listings\<close>

subsection \<open>List Posts: \<^verbatim>\<open>app.get('/make-server-cd7e5f90/posts')\<close>\<close>

text \<open>The query parameters, each \<^verbatim>\<open>string | undefined\<close>.\<close>

record query =
  category :: "string option"
  search :: "string option"
  tag :: "string option"
  featured :: "string option"

text \<open>\<^verbatim>\<open>Array.prototype.filter\<close> with a callback that may raise.\<close>

fun filter_err :: "('a \<Rightarrow> error + bool) \<Rightarrow> 'a list \<Rightarrow> error + 'a list" where
  "filter_err f [] = Inr []"
| "filter_err f (x # xs) =
     (case f x of
        Inl e \<Rightarrow> Inl e
      | Inr b \<Rightarrow>
          (case filter_err f xs of
             Inl e \<Rightarrow> Inl e
           | Inr ys \<Rightarrow> Inr (if b then x # ys else ys)))"

text \<open>\<^verbatim>\<open>hay.includes(needle)\<close> on strings.\<close>

fun includes_str :: "string \<Rightarrow> string \<Rightarrow> bool" where
  "includes_str [] needle = (needle = [])"
| "includes_str (h # hs) needle = (starts_with (h # hs) needle \<or> includes_str hs needle)"

text \<open>
  \<^verbatim>\<open>v?.includes(x)\<close> as a filter result: element search on an array, substring search on
  a string, \<^verbatim>\<open>undefined\<close> (falsy) on a nullish \<open>v\<close>, a \<^verbatim>\<open>TypeError\<close> otherwise.
\<close>

definition includes_call :: "json option \<Rightarrow> string \<Rightarrow> error + bool" where
  "includes_call v x =
     (case v of
        None \<Rightarrow> Inr False
      | Some JNull \<Rightarrow> Inr False
      | Some (JArr xs) \<Rightarrow> Inr (JStr x \<in> set xs)
      | Some (JStr s) \<Rightarrow> Inr (includes_str s x)
      | Some _ \<Rightarrow> Inl InternalError)"

text \<open>\<^verbatim>\<open>v?.toLowerCase().includes(s)\<close>; \<open>lower\<close> is the runtime's \<^verbatim>\<open>String.prototype.toLowerCase\<close>.\<close>

definition lower_includes :: "(string \<Rightarrow> string) \<Rightarrow> json option \<Rightarrow> string \<Rightarrow> error + bool" where
  "lower_includes lower v s =
     (case v of
        None \<Rightarrow> Inr False
      | Some JNull \<Rightarrow> Inr False
      | Some (JStr t) \<Rightarrow> Inr (includes_str (lower t) s)
      | Some _ \<Rightarrow> Inl InternalError)"

definition status_published :: "json \<Rightarrow> error + bool" where
  "status_published p =
     (case get_prop p ''status'' of Inl e \<Rightarrow> Inl e | Inr v \<Rightarrow> Inr (v = Some (JStr ''published'')))"

definition in_field :: "string \<Rightarrow> string \<Rightarrow> json \<Rightarrow> error + bool" where
  "in_field field x p =
     (case get_prop p field of Inl e \<Rightarrow> Inl e | Inr v \<Rightarrow> includes_call v x)"

definition search_match :: "(string \<Rightarrow> string) \<Rightarrow> string \<Rightarrow> json \<Rightarrow> error + bool" where
  "search_match lower searchLower p =
     (if p = JNull then Inl InternalError
      else (case lower_includes lower (fmlookup (own_props p) ''title'') searchLower of
              Inl e \<Rightarrow> Inl e
            | Inr b1 \<Rightarrow>
                if b1 then Inr True
                else (case lower_includes lower (fmlookup (own_props p) ''content'') searchLower of
                        Inl e \<Rightarrow> Inl e
                      | Inr b2 \<Rightarrow>
                          if b2 then Inr True
                          else lower_includes lower (fmlookup (own_props p) ''excerpt'') searchLower)))"

definition featured_true :: "json \<Rightarrow> error + bool" where
  "featured_true p =
     (case get_prop p ''featured'' of Inl e \<Rightarrow> Inl e | Inr v \<Rightarrow> Inr (v = Some (JBool True)))"

text \<open>
  \<^verbatim>\<open>posts.sort((a, b) => new Date(b.createdAt).getTime() - new Date(a.createdAt).getTime())\<close>.
  \<open>getTime\<close> is the runtime's \<^verbatim>\<open>new Date(x).getTime()\<close>, \<open>None\<close> standing for \<^verbatim>\<open>NaN\<close>; a
  \<^verbatim>\<open>NaN\<close> comparison result counts as 0. The sort is stable; with two or more elements
  every element is passed to the comparator, which raises on \<^verbatim>\<open>null\<close>.
\<close>

definition newest_first :: "(json option \<Rightarrow> int option) \<Rightarrow> json \<Rightarrow> json \<Rightarrow> int" where
  "newest_first getTime a b =
     (case (getTime (fmlookup (own_props b) ''createdAt''),
            getTime (fmlookup (own_props a) ''createdAt'')) of
        (Some tb, Some ta) \<Rightarrow> tb - ta
      | _ \<Rightarrow> 0)"

fun insert_by :: "('a \<Rightarrow> 'a \<Rightarrow> int) \<Rightarrow> 'a \<Rightarrow> 'a list \<Rightarrow> 'a list" where
  "insert_by cmp x [] = [x]"
| "insert_by cmp x (y # ys) = (if cmp x y \<le> 0 then x # y # ys else y # insert_by cmp x ys)"

definition sort_by :: "('a \<Rightarrow> 'a \<Rightarrow> int) \<Rightarrow> 'a list \<Rightarrow> 'a list" where
  "sort_by cmp xs = foldr (insert_by cmp) xs []"

definition sort_posts :: "(json option \<Rightarrow> int option) \<Rightarrow> json list \<Rightarrow> error + json list" where
  "sort_posts getTime posts =
     (if 2 \<le> length posts \<and> JNull \<in> set posts then Inl InternalError
      else Inr (sort_by (newest_first getTime) posts))"

definition nonempty :: "string option \<Rightarrow> bool" where
  "nonempty q = (case q of None \<Rightarrow> False | Some s \<Rightarrow> s \<noteq> [])"

text \<open>
  The handler up to the \<^verbatim>\<open>featured\<close> test: the visibility filter for a caller that
  \<^verbatim>\<open>verifyAuth\<close> rejects, then the category, tag and search filters, each applied only
  when its query parameter is a non-empty string.
\<close>

definition filtered_posts :: "(string \<Rightarrow> string) \<Rightarrow> store \<Rightarrow> auth_user option \<Rightarrow> query
    \<Rightarrow> error + json list" where
  "filtered_posts lower st caller q =
     (let posts0 = kv_getByPrefix st ''posts:''
      in (case (if caller = None then filter_err status_published posts0 else Inr posts0) of
        Inl e \<Rightarrow> Inl e
      | Inr posts1 \<Rightarrow>
         (case (if nonempty (category q)
                then filter_err (in_field ''categories'' (the (category q))) posts1
                else Inr posts1) of
            Inl e \<Rightarrow> Inl e
          | Inr posts2 \<Rightarrow>
             (case (if nonempty (tag q)
                    then filter_err (in_field ''tags'' (the (tag q))) posts2
                    else Inr posts2) of
                Inl e \<Rightarrow> Inl e
              | Inr posts3 \<Rightarrow>
                 (if nonempty (search q)
                  then filter_err (search_match lower (lower (the (search q)))) posts3
                  else Inr posts3)))))"

text \<open>The rest of the handler: \<^verbatim>\<open>if (featured === 'true')\<close> and the sort.\<close>

definition list_posts :: "(string \<Rightarrow> string) \<Rightarrow> (json option \<Rightarrow> int option) \<Rightarrow> store
    \<Rightarrow> auth_user option \<Rightarrow> query \<Rightarrow> error + json list" where
  "list_posts lower getTime st caller q =
     (case filtered_posts lower st caller q of
        Inl e \<Rightarrow> Inl e
      | Inr posts4 \<Rightarrow>
          (case (if featured q = Some ''true''
                 then filter_err featured_true posts4
                 else Inr posts4) of
             Inl e \<Rightarrow> Inl e
           | Inr posts5 \<Rightarrow> sort_posts getTime posts5))"

subsection \<open>Categories and Tags: \<^verbatim>\<open>app.get('/make-server-cd7e5f90/categories')\<close>,
  \<^verbatim>\<open>app.get('/make-server-cd7e5f90/tags')\<close>\<close>

text \<open>
  \<^verbatim>\<open>Set.prototype.add\<close>, the set kept as the list of its elements in insertion order.
  Primitive values are equal when they are the same value; every parsed array or object
  is a fresh reference and equal to none of the others.
\<close>

definition is_reference :: "json \<Rightarrow> bool" where
  "is_reference v = (case v of JArr xs \<Rightarrow> True | JObj m \<Rightarrow> True | _ \<Rightarrow> False)"

definition set_add :: "json list \<Rightarrow> json \<Rightarrow> json list" where
  "set_add s x = (if \<not> is_reference x \<and> x \<in> set s then s else s @ [x])"

text \<open>
  \<^verbatim>\<open>posts.forEach(post => { if (post.f) { post.f.forEach(x => set.add(x)) } })\<close> for the
  field \<open>f\<close>: reading the field of \<^verbatim>\<open>null\<close> raises, and so does \<^verbatim>\<open>forEach\<close> on a truthy
  value that is not an array.
\<close>

fun collect :: "string \<Rightarrow> json list \<Rightarrow> json list \<Rightarrow> error + json list" where
  "collect f [] acc = Inr acc"
| "collect f (post # posts) acc =
     (case get_prop post f of
        Inl e \<Rightarrow> Inl e
      | Inr v \<Rightarrow>
          if \<not> truthy_opt v then collect f posts acc
          else (case v of
                  Some (JArr xs) \<Rightarrow> collect f posts (foldl set_add acc xs)
                | _ \<Rightarrow> Inl InternalError))"

text \<open>
  \<^verbatim>\<open>Array.prototype.sort()\<close> without a comparator: the elements are ordered by their string
  renderings, compared code unit by code unit; the sort is stable. With fewer than two
  elements nothing is rendered.
\<close>

fun str_less :: "string \<Rightarrow> string \<Rightarrow> bool" where
  "str_less [] [] = False"
| "str_less [] (y # ys) = True"
| "str_less (x # xs) [] = False"
| "str_less (x # xs) (y # ys) =
     ((of_char x :: nat) < of_char y \<or> (x = y \<and> str_less xs ys))"

fun keyed :: "(rat \<Rightarrow> string) \<Rightarrow> json list \<Rightarrow> error + (string \<times> json) list" where
  "keyed numstr [] = Inr []"
| "keyed numstr (x # xs) =
     (case js_to_string numstr x of
        Inl e \<Rightarrow> Inl e
      | Inr s \<Rightarrow> (case keyed numstr xs of Inl e \<Rightarrow> Inl e | Inr ks \<Rightarrow> Inr ((s, x) # ks)))"

definition by_key :: "string \<times> json \<Rightarrow> string \<times> json \<Rightarrow> int" where
  "by_key a b = (if str_less (fst a) (fst b) then - 1 else if str_less (fst b) (fst a) then 1 else 0)"

definition sort_default :: "(rat \<Rightarrow> string) \<Rightarrow> json list \<Rightarrow> error + json list" where
  "sort_default numstr xs =
     (if length xs < 2 then Inr xs
      else (case keyed numstr xs of Inl e \<Rightarrow> Inl e | Inr ks \<Rightarrow> Inr (map snd (sort_by by_key ks))))"

text \<open>The two handlers have the same body, one over \<^verbatim>\<open>post.categories\<close>, the other over
  \<^verbatim>\<open>post.tags\<close>; neither reads the \<^verbatim>\<open>Authorization\<close> header or \<^verbatim>\<open>post.status\<close>.\<close>

definition list_field :: "(rat \<Rightarrow> string) \<Rightarrow> string \<Rightarrow> store \<Rightarrow> error + json list" where
  "list_field numstr f st =
     (case collect f (kv_getByPrefix st ''posts:'') [] of
        Inl e \<Rightarrow> Inl e
      | Inr s \<Rightarrow> sort_default numstr s)"

definition list_categories :: "(rat \<Rightarrow> string) \<Rightarrow> store \<Rightarrow> error + json list" where
  "list_categories numstr st = list_field numstr ''categories'' st"

definition list_tags :: "(rat \<Rightarrow> string) \<Rightarrow> store \<Rightarrow> error + json list" where
  "list_tags numstr st = list_field numstr ''tags'' st"

section \<open>The id pattern\<close>

definition is_digit :: "char \<Rightarrow> bool" where
  "is_digit c = (c \<in> set ''0123456789'')"

definition is_base36 :: "char \<Rightarrow> bool" where
  "is_base36 c = (c \<in> set ''0123456789abcdefghijklmnopqrstuvwxyz'')"

definition is_alnum :: "char \<Rightarrow> bool" where
  "is_alnum c = (is_base36 c \<or> c \<in> set ''ABCDEFGHIJKLMNOPQRSTUVWXYZ'')"

text \<open>
  The shape of \<^verbatim>\<open>Math.random().toString(36)\<close> for a non-zero random number: \<^verbatim>\<open>0.\<close>
  followed by at least one digit of base 36.
\<close>

definition base36_fraction :: "string \<Rightarrow> bool" where
  "base36_fraction r = (starts_with r ''0.'' \<and> drop 2 r \<noteq> [] \<and> list_all is_base36 (drop 2 r))"

text \<open>
  Following the spec's words, the pattern \<^verbatim>\<open>post_<digits>_<alnum>\<close>: the prefix \<^verbatim>\<open>post_\<close>,
  one or more decimal digits, an underscore, one or more letters or digits.
\<close>

definition matches_post_id :: "string \<Rightarrow> bool" where
  "matches_post_id s =
     (starts_with s ''post_'' \<and>
      (let rest = drop 5 s; ds = takeWhile is_digit rest
       in ds \<noteq> [] \<and>
          (case dropWhile is_digit rest of
             [] \<Rightarrow> False
           | c # an \<Rightarrow> c = CHR ''_'' \<and> an \<noteq> [] \<and> list_all is_alnum an)))"

section \<open>Example data\<close>

text \<open>Two users, a draft and a published post of the first one, a comment, and the
  record Create Post builds in the round trip below.\<close>

definition example_author :: auth_user where
  "example_author = \<lparr>user_id = ''u1'', email = Some ''ann@example.org''\<rparr>"

definition example_reader :: auth_user where
  "example_reader = \<lparr>user_id = ''u2'', email = Some ''bob@example.org''\<rparr>"

definition example_user :: "string \<Rightarrow> json" where
  "example_user uid = JObj (fmap_of_list
     [(''id'', JStr uid), (''username'', JStr uid), (''role'', JStr ''user'')])"

definition example_post :: json where
  "example_post = JObj (fmap_of_list
     [(''id'', JStr ''p1''), (''title'', JStr ''Notes''), (''content'', JStr ''<p>hi</p>''),
      (''authorId'', JStr ''u1''), (''categories'', JArr [JStr ''B'']), (''tags'', JArr [JStr ''x'']),
      (''status'', JStr ''draft''), (''featured'', JBool True), (''likes'', JNum 5)])"

definition example_published :: json where
  "example_published = JObj (fmap_of_list
     [(''id'', JStr ''p2''), (''title'', JStr ''News''), (''content'', JStr ''<p>new</p>''),
      (''authorId'', JStr ''u1''), (''categories'', JArr [JStr ''A'']), (''tags'', JArr [JStr ''y'']),
      (''status'', JStr ''published''), (''featured'', JBool True), (''likes'', JNum 1)])"

definition example_comment :: json where
  "example_comment = JObj (fmap_of_list
     [(''id'', JStr ''c1''), (''postId'', JStr ''p1''), (''userId'', JStr ''u2''),
      (''content'', JStr ''Nice''), (''likes'', JNum 2)])"

definition example_store :: store where
  "example_store =
     [(''users:u1'', example_user ''u1''), (''users:u2'', example_user ''u2''),
      (''posts:p1'', example_post)]"

definition likes_store :: "rat \<Rightarrow> store" where
  "likes_store x = [(''posts:p1'', JObj (fmap_of_list [(''id'', JStr ''p1''), (''likes'', JNum x)]))]"

definition example_listing_store :: store where
  "example_listing_store = example_store @ [(''posts:p2'', example_published)]"

definition example_new_post :: json where
  "example_new_post = JObj (fmap_of_list
     [(''id'', JStr ''post_1714557600000_4fzyo82mv''), (''title'', JStr ''T''),
      (''content'', JStr ''<p>hi</p>''), (''excerpt'', JStr ''<p>hi</p>''),
      (''authorId'', JStr ''u1''), (''authorName'', JStr ''u1''), (''image'', JStr ''''),
      (''tags'', JArr [JStr ''x'', JStr ''y'']), (''categories'', JArr []),
      (''status'', JStr ''published''), (''featured'', JBool False), (''likes'', JNum 0),
      (''createdAt'', JStr ''2024-05-01T10:00:00.000Z''),
      (''updatedAt'', JStr ''2024-05-01T10:00:00.001Z'')])"

text \<open>Stand-ins for the runtime functions in the examples: lower-casing of the ASCII
  letters, a clock that parses no string, and a rendering of numbers that is the
  runtime's on the natural numbers below \<open>10^21\<close>.\<close>

definition ascii_lower :: "string \<Rightarrow> string" where
  "ascii_lower s =
     map (\<lambda>c. if 65 \<le> (of_char c :: nat) \<and> (of_char c :: nat) \<le> 90
              then char_of ((of_char c :: nat) + 32) else c) s"

definition no_time :: "json option \<Rightarrow> int option" where
  "no_time v = None"

definition nat_numstr :: "rat \<Rightarrow> string" where
  "nat_numstr x = show_nat (nat \<lfloor>x\<rfloor>)"

definition no_filters :: query where
  "no_filters = \<lparr>category = None, search = None, tag = None, featured = None\<rparr>"

text \<open>Request bodies.\<close>

definition status_body :: "string \<Rightarrow> json" where
  "status_body s = JObj (fmap_of_list [(''status'', JStr s)])"

definition author_body :: json where
  "author_body = JObj (fmap_of_list [(''authorId'', JStr ''u2'')])"

definition likes_body :: json where
  "likes_body = JObj (fmap_of_list [(''likes'', JNum 0)])"

definition role_body :: json where
  "role_body = JObj (fmap_of_list [(''role'', JStr ''admin'')])"

definition long_excerpt_body :: json where
  "long_excerpt_body = JObj (fmap_of_list
     [(''title'', JStr ''T''), (''content'', JStr ''<p>hi</p>''),
      (''excerpt'', JStr (replicate 201 CHR ''a''))])"

definition roundtrip_body :: json where
  "roundtrip_body = JObj (fmap_of_list
     [(''title'', JStr ''T''), (''content'', JStr ''<p>hi</p>''),
      (''tags'', JArr [JStr ''x'', JStr ''y''])])"

section \<open>Properties\<close>

lemma kv_get_set: "kv_get (kv_set st k v) k = Some v"
  by (simp add: kv_get_def kv_set_def update_conv')

lemma kv_get_set_other: "k' \<noteq> k \<Longrightarrow> kv_get (kv_set st k v) k' = kv_get st k'"
  by (simp add: kv_get_def kv_set_def update_conv')

lemma update_post_accepted:
  assumes "update_post t st caller postId body = (st', Inr up)"
  obtains user currentPost updates where
    "caller = Some user" "body = Some updates"
    "kv_get st (''posts:'' @ postId) = Some currentPost" "truthy currentPost"
    "\<not> forbidden currentPost user (kv_get st (''users:'' @ user_id user))"
    "up = updatedPost currentPost updates postId t"
    "st' = kv_set st (''posts:'' @ postId) up"
  using assms
  by (auto simp: update_post_def Let_def split: option.splits if_splits)

subsection \<open>Authorization failures write nothing\<close>

text \<open>
  C6. When the caller is authenticated, the post exists, the caller is not its author
  and the caller's user record does not carry the role \<^verbatim>\<open>admin\<close>, both Update Post and
  Delete Post answer with the authorization error (403) and return the store they were
  given, so the record stored under the post's key is the one stored before.
\<close>
theorem unauthorized_update_delete_leave_post:
  assumes "kv_get st (''posts:'' @ postId) = Some post" and "truthy post"
    and "fmlookup (own_props post) ''authorId'' \<noteq> Some (JStr (user_id user))"
    and "opt_prop (kv_get st (''users:'' @ user_id user)) ''role'' \<noteq> Some (JStr ''admin'')"
  shows "update_post t st (Some user) postId body = (st, Inl AuthorizationError)
       \<and> delete_post st (Some user) postId = (st, Inl AuthorizationError)
       \<and> kv_get (fst (update_post t st (Some user) postId body)) (''posts:'' @ postId) = Some post
       \<and> kv_get (fst (delete_post st (Some user) postId)) (''posts:'' @ postId) = Some post"
  using assms by (simp add: update_post_def delete_post_def forbidden_def)

theorem unauthorized_update_delete_leave_post_witness:
  "update_post ''2024-05-01T10:00:00.000Z'' example_store (Some example_reader) ''p1''
      (Some (JObj (fmap_of_list [(''title'', JStr ''Mine now'')])))
     = (example_store, Inl AuthorizationError)
   \<and> delete_post example_store (Some example_reader) ''p1'' = (example_store, Inl AuthorizationError)
   \<and> kv_get example_store ''posts:p1'' = Some example_post"
proof -
  have g: "kv_get example_store (''posts:'' @ ''p1'') = Some example_post"
    by (simp add: kv_get_def example_store_def)
  have t: "truthy example_post" by (simp add: example_post_def)
  have a: "fmlookup (own_props example_post) ''authorId'' \<noteq> Some (JStr (user_id example_reader))"
    by (simp add: example_post_def example_reader_def)
  have r: "opt_prop (kv_get example_store (''users:'' @ user_id example_reader)) ''role''
      \<noteq> Some (JStr ''admin'')"
    by (simp add: opt_prop_def kv_get_def example_store_def example_reader_def example_user_def)
  from unauthorized_update_delete_leave_post [OF g t a r,
      of "''2024-05-01T10:00:00.000Z''" "Some (JObj (fmap_of_list [(''title'', JStr ''Mine now'')]))"] g
  show ?thesis by simp
qed

lemma example_update:
  "update_post t example_store (Some example_author) ''p1'' (Some b) =
     (kv_set example_store ''posts:p1'' (updatedPost example_post b ''p1'' t),
      Inr (updatedPost example_post b ''p1'' t))"
  by (simp add: update_post_def kv_get_def example_store_def example_author_def example_post_def
      example_user_def forbidden_def opt_prop_def Let_def)

lemma stored_update_prop:
  "opt_prop (kv_get (kv_set st k (updatedPost cur upd pid t)) k) f =
     (if f = ''updatedAt'' then Some (JStr t)
      else if f = ''id'' then Some (JStr pid)
      else (case fmlookup (own_props upd) f of
              Some v \<Rightarrow> Some v
            | None \<Rightarrow> fmlookup (own_props cur) f))"
  by (simp add: kv_get_set opt_prop_def updatedPost_def fmlookup_dom_iff split: option.splits)

subsection \<open>What Update Post stores\<close>

text \<open>
  C1 (as amended). After an accepted Update Post the stored record's \<^verbatim>\<open>status\<close> is the
  \<^verbatim>\<open>status\<close> property of the request body when the body has one, and the status stored
  before otherwise. So it is \<^verbatim>\<open>draft\<close> or \<^verbatim>\<open>published\<close> whenever the stored status was
  one of the two and the body carries either no status or one of the two.
\<close>

theorem update_post_status:
  assumes "update_post t st caller postId body = (st', Inr up)"
  shows "opt_prop (kv_get st' (''posts:'' @ postId)) ''status'' =
           (case opt_prop body ''status'' of
              Some v \<Rightarrow> Some v
            | None \<Rightarrow> opt_prop (kv_get st (''posts:'' @ postId)) ''status'')
       \<and> (opt_prop (kv_get st (''posts:'' @ postId)) ''status''
              \<in> {Some (JStr ''draft''), Some (JStr ''published'')}
            \<and> opt_prop body ''status'' \<in> {None, Some (JStr ''draft''), Some (JStr ''published'')}
          \<longrightarrow> opt_prop (kv_get st' (''posts:'' @ postId)) ''status''
              \<in> {Some (JStr ''draft''), Some (JStr ''published'')})"
proof -
  from assms obtain user currentPost updates where
    b: "body = Some updates" and
    g: "kv_get st (''posts:'' @ postId) = Some currentPost" and
    u: "up = updatedPost currentPost updates postId t" and
    s: "st' = kv_set st (''posts:'' @ postId) up"
    by (rule update_post_accepted)
  have new: "opt_prop (kv_get st' (''posts:'' @ postId)) ''status'' =
      (case fmlookup (own_props updates) ''status'' of
         Some v \<Rightarrow> Some v
       | None \<Rightarrow> fmlookup (own_props currentPost) ''status'')"
    unfolding s u by (simp only: stored_update_prop) simp
  have old: "opt_prop (kv_get st (''posts:'' @ postId)) ''status''
      = fmlookup (own_props currentPost) ''status''"
    unfolding g by (simp add: opt_prop_def)
  have bd: "opt_prop body ''status'' = fmlookup (own_props updates) ''status''"
    unfolding b by (simp add: opt_prop_def)
  show ?thesis
    unfolding new old bd by (auto split: option.splits)
qed

theorem update_post_status_witness:
  "update_post ''2024-05-01T10:00:00.000Z'' example_store (Some example_author) ''p1''
       (Some (status_body ''published''))
     = (kv_set example_store ''posts:p1''
          (updatedPost example_post (status_body ''published'') ''p1'' ''2024-05-01T10:00:00.000Z''),
        Inr (updatedPost example_post (status_body ''published'') ''p1'' ''2024-05-01T10:00:00.000Z''))
   \<and> opt_prop (kv_get example_store ''posts:p1'') ''status'' = Some (JStr ''draft'')
   \<and> opt_prop (Some (status_body ''published'')) ''status'' = Some (JStr ''published'')
   \<and> opt_prop (kv_get (kv_set example_store ''posts:p1''
          (updatedPost example_post (status_body ''published'') ''p1'' ''2024-05-01T10:00:00.000Z''))
        ''posts:p1'') ''status'' = Some (JStr ''published'')"
proof -
  have old: "opt_prop (kv_get example_store ''posts:p1'') ''status'' = Some (JStr ''draft'')"
    by (simp add: opt_prop_def kv_get_def example_store_def example_post_def)
  have new: "opt_prop (Some (status_body ''published'')) ''status'' = Some (JStr ''published'')"
    by (simp add: opt_prop_def status_body_def)
  from update_post_status [OF example_update [of "''2024-05-01T10:00:00.000Z''" "status_body ''published''"]]
    old new example_update
  show ?thesis by simp
qed

text \<open>
  The handler accepts a body whose status is neither of the two values and stores it:
  the author of the example post sets its status to \<^verbatim>\<open>archived\<close>.
\<close>

theorem update_post_status_counterexample:
  "\<not> isl (snd (update_post ''2024-05-01T10:00:00.000Z'' example_store (Some example_author) ''p1''
       (Some (status_body ''archived''))))
   \<and> opt_prop (kv_get (fst (update_post ''2024-05-01T10:00:00.000Z'' example_store
        (Some example_author) ''p1'' (Some (status_body ''archived'')))) ''posts:p1'') ''status''
       = Some (JStr ''archived'')
   \<and> JStr ''archived'' \<notin> {JStr ''draft'', JStr ''published''}"
  by (simp add: example_update stored_update_prop status_body_def)

text \<open>
  C2 (as amended). After an accepted Update Post the stored record's \<^verbatim>\<open>id\<close> is the id of
  the request path, and its \<^verbatim>\<open>authorId\<close> is the one stored before unless the request body
  has an \<^verbatim>\<open>authorId\<close> property, whose value then replaces it.
\<close>

theorem update_post_authorId:
  assumes "update_post t st caller postId body = (st', Inr up)"
  shows "opt_prop (kv_get st' (''posts:'' @ postId)) ''authorId'' =
           (case opt_prop body ''authorId'' of
              Some v \<Rightarrow> Some v
            | None \<Rightarrow> opt_prop (kv_get st (''posts:'' @ postId)) ''authorId'')
       \<and> opt_prop (kv_get st' (''posts:'' @ postId)) ''id'' = Some (JStr postId)"
proof -
  from assms obtain user currentPost updates where
    b: "body = Some updates" and
    g: "kv_get st (''posts:'' @ postId) = Some currentPost" and
    u: "up = updatedPost currentPost updates postId t" and
    s: "st' = kv_set st (''posts:'' @ postId) up"
    by (rule update_post_accepted)
  have new: "opt_prop (kv_get st' (''posts:'' @ postId)) ''authorId'' =
      (case fmlookup (own_props updates) ''authorId'' of
         Some v \<Rightarrow> Some v
       | None \<Rightarrow> fmlookup (own_props currentPost) ''authorId'')"
    unfolding s u by (simp only: stored_update_prop) simp
  have ident: "opt_prop (kv_get st' (''posts:'' @ postId)) ''id'' = Some (JStr postId)"
    unfolding s u by (simp only: stored_update_prop) simp
  have old: "opt_prop (kv_get st (''posts:'' @ postId)) ''authorId''
      = fmlookup (own_props currentPost) ''authorId''"
    unfolding g by (simp add: opt_prop_def)
  have bd: "opt_prop body ''authorId'' = fmlookup (own_props updates) ''authorId''"
    unfolding b by (simp add: opt_prop_def)
  show ?thesis
    unfolding new old bd ident by simp
qed

theorem update_post_authorId_witness:
  "update_post ''2024-05-01T10:00:00.000Z'' example_store (Some example_author) ''p1''
       (Some (status_body ''published''))
     = (kv_set example_store ''posts:p1''
          (updatedPost example_post (status_body ''published'') ''p1'' ''2024-05-01T10:00:00.000Z''),
        Inr (updatedPost example_post (status_body ''published'') ''p1'' ''2024-05-01T10:00:00.000Z''))
   \<and> opt_prop (kv_get (kv_set example_store ''posts:p1''
          (updatedPost example_post (status_body ''published'') ''p1'' ''2024-05-01T10:00:00.000Z''))
        ''posts:p1'') ''authorId'' = Some (JStr ''u1'')"
proof -
  have old: "opt_prop (kv_get example_store ''posts:p1'') ''authorId'' = Some (JStr ''u1'')"
    by (simp add: opt_prop_def kv_get_def example_store_def example_post_def)
  have new: "opt_prop (Some (status_body ''published'')) ''authorId'' = None"
    by (simp add: opt_prop_def status_body_def)
  from update_post_authorId [OF example_update [of "''2024-05-01T10:00:00.000Z''" "status_body ''published''"]]
    old new example_update
  show ?thesis by simp
qed

text \<open>
  The spread of the body comes after the spread of the stored record, and only \<^verbatim>\<open>id\<close>
  and \<^verbatim>\<open>updatedAt\<close> are set after it: the author of the example post hands it to \<^verbatim>\<open>u2\<close>.
\<close>

theorem update_post_authorId_counterexample:
  "\<not> isl (snd (update_post ''2024-05-01T10:00:00.000Z'' example_store (Some example_author) ''p1''
       (Some author_body)))
   \<and> opt_prop (kv_get example_store ''posts:p1'') ''authorId'' = Some (JStr ''u1'')
   \<and> opt_prop (kv_get (fst (update_post ''2024-05-01T10:00:00.000Z'' example_store
        (Some example_author) ''p1'' (Some author_body))) ''posts:p1'') ''authorId''
       = Some (JStr ''u2'')"
proof -
  have old: "opt_prop (kv_get example_store ''posts:p1'') ''authorId'' = Some (JStr ''u1'')"
    by (simp add: opt_prop_def kv_get_def example_store_def example_post_def)
  show ?thesis
    by (simp add: old example_update stored_update_prop author_body_def)
qed

subsection \<open>Update User merges every field of the body\<close>

text \<open>
  C3. An authenticated caller whose own user record exists, whatever role it holds (in
  particular the role \<^verbatim>\<open>user\<close>), calls Update User on their own id with the body
  \<^verbatim>\<open>{role: 'admin'}\<close>: the request succeeds and the caller's stored record then has the
  role \<^verbatim>\<open>admin\<close>.
\<close>

theorem update_user_self_promotion:
  assumes "kv_get st (''users:'' @ user_id user) = Some cur" and "truthy cur"
  shows "\<not> isl (snd (update_user st (Some user) (user_id user) (Some role_body)))
       \<and> opt_prop (kv_get (fst (update_user st (Some user) (user_id user) (Some role_body)))
            (''users:'' @ user_id user)) ''role'' = Some (JStr ''admin'')"
  using assms
  by (simp add: update_user_def Let_def kv_get_set opt_prop_def role_body_def)

theorem update_user_self_promotion_witness:
  "opt_prop (kv_get example_store ''users:u2'') ''role'' = Some (JStr ''user'')
   \<and> \<not> isl (snd (update_user example_store (Some example_reader) ''u2'' (Some role_body)))
   \<and> opt_prop (kv_get (fst (update_user example_store (Some example_reader) ''u2'' (Some role_body)))
        ''users:u2'') ''role'' = Some (JStr ''admin'')"
proof -
  have g: "kv_get example_store (''users:'' @ user_id example_reader) = Some (example_user ''u2'')"
    by (simp add: kv_get_def example_store_def example_reader_def)
  have t: "truthy (example_user ''u2'')"
    by (simp add: example_user_def)
  have r: "opt_prop (kv_get example_store ''users:u2'') ''role'' = Some (JStr ''user'')"
    by (simp add: opt_prop_def kv_get_def example_store_def example_user_def)
  have u: "user_id example_reader = ''u2''"
    by (simp add: example_reader_def)
  from update_user_self_promotion [OF g t] r show ?thesis
    by (simp add: u)
qed

subsection \<open>Likes\<close>

lemma bit_length_0 [simp]: "bit_length 0 = 0"
  by (simp add: bit_length.simps [of 0])

lemma bit_length_pos: "n \<noteq> 0 \<Longrightarrow> bit_length n = Suc (bit_length (n div 2))"
  by (simp add: bit_length.simps [of n])

lemma bit_length_le: "n < 2 ^ k \<Longrightarrow> bit_length n \<le> k"
proof (induction k arbitrary: n)
  case 0
  then show ?case by simp
next
  case (Suc k)
  show ?case
  proof (cases "n = 0")
    case True
    then show ?thesis by simp
  next
    case False
    from Suc.prems have "n div 2 < 2 ^ k" by simp
    from Suc.IH [OF this] False show ?thesis
      by (simp add: bit_length_pos)
  qed
qed

lemma bit_length_eq: "2 ^ k \<le> n \<Longrightarrow> n < 2 ^ Suc k \<Longrightarrow> bit_length n = Suc k"
proof (induction k arbitrary: n)
  case 0
  then have "n = Suc 0" by simp
  then show ?case by (simp add: bit_length_pos)
next
  case (Suc k)
  from Suc.prems have a: "2 ^ k \<le> n div 2" and b: "n div 2 < 2 ^ Suc k" and c: "n \<noteq> 0"
    by auto
  from Suc.IH [OF a b] c show ?case
    by (simp add: bit_length_pos)
qed

lemma round53_exact:
  assumes "\<bar>m\<bar> \<le> 2 ^ 53"
  shows "round53 m = m"
proof (cases "\<bar>m\<bar> < 2 ^ 53")
  case True
  then have "nat \<bar>m\<bar> < 2 ^ 53"
    by (simp add: nat_less_iff)
  from bit_length_le [OF this] show ?thesis
    by (simp add: round53_def)
next
  case False
  with assms have m: "\<bar>m\<bar> = 2 ^ 53" by simp
  then have "nat \<bar>m\<bar> = 2 ^ 53"
    by (simp add: nat_eq_iff)
  with bit_length_eq [of 53 "nat \<bar>m\<bar>"] have "bit_length (nat \<bar>m\<bar>) = Suc 53"
    by simp
  moreover from m have "m = 2 ^ 53 \<or> m = - (2 ^ 53)" by linarith
  ultimately show ?thesis
    by (auto simp: round53_def Let_def)
qed

lemma double_plus_one_int:
  assumes "- (2 ^ 53) \<le> n" and "n < 2 ^ 53"
  shows "double_plus_one (of_int n) = of_int (n + 1)"
proof -
  from assms have "\<bar>n + 1\<bar> \<le> 2 ^ 53" by simp
  from round53_exact [OF this] show ?thesis
    by (simp add: double_plus_one_def)
qed

lemma round53_above: "round53 (2 ^ 53 + 1) = 2 ^ 53"
proof -
  have "bit_length (nat \<bar>2 ^ 53 + 1 :: int\<bar>) = Suc 53"
    by (rule bit_length_eq) simp_all
  then show ?thesis
    by (simp add: round53_def Let_def)
qed

lemma round53_below: "round53 (- (2 ^ 53) - 1) = - (2 ^ 53)"
proof -
  have "bit_length (nat \<bar>- (2 ^ 53) - 1 :: int\<bar>) = Suc 53"
    by (rule bit_length_eq) simp_all
  then show ?thesis
    by (simp add: round53_def Let_def)
qed

lemma double_plus_one_above: "double_plus_one (2 ^ 53) = 2 ^ 53"
  using round53_above by (simp add: double_plus_one_def)

lemma double_plus_one_below: "double_plus_one (- (2 ^ 53) - 2) = - (2 ^ 53)"
  using round53_below by (simp add: double_plus_one_def)

lemma double_plus_one_small: "double_plus_one (Fract 1 (2 ^ 53)) = 1"
proof -
  have q: "quotient_of (Fract 1 (2 ^ 53)) = (1, 2 ^ 53)"
    by (simp add: quotient_of_Fract Rat.normalize_def)
  show ?thesis
    unfolding double_plus_one_def q using round53_above by (simp add: add.commute)
qed

lemma like_record_numeric:
  assumes "fmlookup m ''likes'' = Some (JNum x)"
  shows "like_record numstr st key (JObj m) =
           (kv_set st key (JObj (fmupd ''likes'' (JNum (double_plus_one x)) m)),
            Inr (mk_obj [(''likes'', Some (JNum (double_plus_one x)))]))"
  using assms by (simp add: like_record_def or_default_def js_plus_one_def)

lemma like_post_times_numeric:
  "kv_get st (''posts:'' @ i) = Some (JObj m) \<Longrightarrow> fmlookup m ''likes'' = Some (JNum (of_int L)) \<Longrightarrow>
   - (2 ^ 53) \<le> L \<Longrightarrow> L + int N \<le> 2 ^ 53 \<Longrightarrow>
   opt_prop (kv_get (like_post_times numstr N st i) (''posts:'' @ i)) ''likes''
     = Some (JNum (of_int (L + int N)))"
proof (induction N arbitrary: st m L)
  case 0
  then show ?case by (simp add: opt_prop_def)
next
  case (Suc N)
  from Suc.prems have d: "double_plus_one (of_int L) = of_int (L + 1)"
    by (intro double_plus_one_int) simp_all
  let ?m = "fmupd ''likes'' (JNum (of_int (L + 1))) m"
  let ?st = "kv_set st (''posts:'' @ i) (JObj ?m)"
  have step: "fst (like_post numstr st i) = ?st"
    using Suc.prems(1,2) by (simp add: like_post_def like_record_numeric d)
  have "opt_prop (kv_get (like_post_times numstr N ?st i) (''posts:'' @ i)) ''likes''
      = Some (JNum (of_int ((L + 1) + int N)))"
    using Suc.prems(3,4) by (intro Suc.IH [of ?st ?m]) (simp_all add: kv_get_set)
  then show ?case
    by (simp add: step add.commute add.left_commute)
qed

lemma like_comment_times_numeric:
  "kv_get st (''comments:'' @ i) = Some (JObj m) \<Longrightarrow> fmlookup m ''likes'' = Some (JNum (of_int L)) \<Longrightarrow>
   - (2 ^ 53) \<le> L \<Longrightarrow> L + int N \<le> 2 ^ 53 \<Longrightarrow>
   opt_prop (kv_get (like_comment_times numstr N st i) (''comments:'' @ i)) ''likes''
     = Some (JNum (of_int (L + int N)))"
proof (induction N arbitrary: st m L)
  case 0
  then show ?case by (simp add: opt_prop_def)
next
  case (Suc N)
  from Suc.prems have d: "double_plus_one (of_int L) = of_int (L + 1)"
    by (intro double_plus_one_int) simp_all
  let ?m = "fmupd ''likes'' (JNum (of_int (L + 1))) m"
  let ?st = "kv_set st (''comments:'' @ i) (JObj ?m)"
  have step: "fst (like_comment numstr st i) = ?st"
    using Suc.prems(1,2) by (simp add: like_comment_def like_record_numeric d)
  have "opt_prop (kv_get (like_comment_times numstr N ?st i) (''comments:'' @ i)) ''likes''
      = Some (JNum (of_int ((L + 1) + int N)))"
    using Suc.prems(3,4) by (intro Suc.IH [of ?st ?m]) (simp_all add: kv_get_set)
  then show ?case
    by (simp add: step add.commute add.left_commute)
qed

lemma like_once:
  "opt_prop (kv_get (like_post_times numstr 1 (likes_store x) ''p1'') ''posts:p1'') ''likes''
     = Some (JNum (double_plus_one x))"
  by (simp add: likes_store_def like_post_def kv_get_def like_record_numeric kv_set_def
      opt_prop_def)

text \<open>
  C8 (as amended). For a stored post, and likewise for a stored comment, whose \<^verbatim>\<open>likes\<close>
  is an integer \<open>L\<close> with \<open>- 2^53 \<le> L\<close>, and for every \<open>N\<close> with \<open>L + N \<le> 2^53\<close>, \<open>N\<close> Like calls one
  after the other on its id leave the stored counter at \<open>L + N\<close>; in particular no Like call
  lowers it.
\<close>
theorem likes_after_n_calls:
  "(kv_get st (''posts:'' @ i) = Some (JObj m) \<and> fmlookup m ''likes'' = Some (JNum (of_int L))
      \<and> - (2 ^ 53) \<le> L \<and> L + int N \<le> 2 ^ 53
     \<longrightarrow> opt_prop (kv_get (like_post_times numstr N st i) (''posts:'' @ i)) ''likes''
           = Some (JNum (of_int (L + int N))))
   \<and> (kv_get st (''comments:'' @ j) = Some (JObj m') \<and> fmlookup m' ''likes'' = Some (JNum (of_int L'))
      \<and> - (2 ^ 53) \<le> L' \<and> L' + int N \<le> 2 ^ 53
     \<longrightarrow> opt_prop (kv_get (like_comment_times numstr N st j) (''comments:'' @ j)) ''likes''
           = Some (JNum (of_int (L' + int N))))"
  using like_post_times_numeric [of st i m L N numstr]
    like_comment_times_numeric [of st j m' L' N numstr]
  by blast

theorem likes_after_n_calls_witness:
  "opt_prop (kv_get (like_post_times nat_numstr 3
        (example_store @ [(''comments:c1'', example_comment)]) ''p1'')
       ''posts:p1'') ''likes'' = Some (JNum 8)
   \<and> opt_prop (kv_get (like_comment_times nat_numstr 3
        (example_store @ [(''comments:c1'', example_comment)]) ''c1'')
       ''comments:c1'') ''likes'' = Some (JNum 5)"
proof -
  let ?st = "example_store @ [(''comments:c1'', example_comment)]"
  let ?m = "fmap_of_list
     [(''id'', JStr ''p1''), (''title'', JStr ''Notes''), (''content'', JStr ''<p>hi</p>''),
      (''authorId'', JStr ''u1''), (''categories'', JArr [JStr ''B'']), (''tags'', JArr [JStr ''x'']),
      (''status'', JStr ''draft''), (''featured'', JBool True), (''likes'', JNum 5)]"
  let ?c = "fmap_of_list
     [(''id'', JStr ''c1''), (''postId'', JStr ''p1''), (''userId'', JStr ''u2''),
      (''content'', JStr ''Nice''), (''likes'', JNum 2)]"
  have p: "kv_get ?st (''posts:'' @ ''p1'') = Some (JObj ?m)
      \<and> fmlookup ?m ''likes'' = Some (JNum (of_int 5))
      \<and> - (2 ^ 53) \<le> (5::int) \<and> 5 + int 3 \<le> 2 ^ 53"
    by (simp add: kv_get_def example_store_def example_post_def)
  have c: "kv_get ?st (''comments:'' @ ''c1'') = Some (JObj ?c)
      \<and> fmlookup ?c ''likes'' = Some (JNum (of_int 2))
      \<and> - (2 ^ 53) \<le> (2::int) \<and> 2 + int 3 \<le> 2 ^ 53"
    by (simp add: kv_get_def example_store_def example_comment_def)
  from likes_after_n_calls [of ?st "''p1''" ?m 5 3 nat_numstr "''c1''" ?c 2] p c
  show ?thesis by simp
qed

text \<open>
  Update Post stores whatever \<^verbatim>\<open>likes\<close> the body carries: the author of the example post,
  which has 5 likes, sets the counter back to 0. And a Like call adds one as doubles do:
  on \<open>2^53\<close> likes it leaves \<open>2^53\<close>, on \<open>2^-53\<close> it leaves 1, on \<open>- 2^53 - 2\<close> it leaves \<open>- 2^53\<close>.
\<close>
theorem likes_counterexample:
  "\<not> isl (snd (update_post ''2024-05-01T10:00:00.000Z'' example_store (Some example_author) ''p1''
       (Some likes_body)))
   \<and> opt_prop (kv_get example_store ''posts:p1'') ''likes'' = Some (JNum 5)
   \<and> opt_prop (kv_get (fst (update_post ''2024-05-01T10:00:00.000Z'' example_store
        (Some example_author) ''p1'' (Some likes_body))) ''posts:p1'') ''likes'' = Some (JNum 0)
   \<and> (0::rat) < 5
   \<and> opt_prop (kv_get (like_post_times nat_numstr 1 (likes_store (2 ^ 53)) ''p1'') ''posts:p1'')
        ''likes'' = Some (JNum (2 ^ 53))
   \<and> (2 ^ 53 :: rat) \<noteq> 2 ^ 53 + 1
   \<and> opt_prop (kv_get (like_post_times nat_numstr 1 (likes_store (Fract 1 (2 ^ 53))) ''p1'')
        ''posts:p1'') ''likes'' = Some (JNum 1)
   \<and> (1 :: rat) \<noteq> Fract 1 (2 ^ 53) + 1
   \<and> opt_prop (kv_get (like_post_times nat_numstr 1 (likes_store (- (2 ^ 53) - 2)) ''p1'')
        ''posts:p1'') ''likes'' = Some (JNum (- (2 ^ 53)))
   \<and> (- (2 ^ 53) :: rat) \<noteq> (- (2 ^ 53) - 2) + 1"
proof -
  have old: "opt_prop (kv_get example_store ''posts:p1'') ''likes'' = Some (JNum 5)"
    by (simp add: opt_prop_def kv_get_def example_store_def example_post_def)
  have upd: "\<not> isl (snd (update_post ''2024-05-01T10:00:00.000Z'' example_store
        (Some example_author) ''p1'' (Some likes_body)))
    \<and> opt_prop (kv_get (fst (update_post ''2024-05-01T10:00:00.000Z'' example_store
        (Some example_author) ''p1'' (Some likes_body))) ''posts:p1'') ''likes'' = Some (JNum 0)"
    by (simp add: example_update stored_update_prop likes_body_def)
  have small: "(1 :: rat) \<noteq> Fract 1 (2 ^ 53) + 1"
    by (simp add: Fract_of_int_quotient)
  show ?thesis
    using old upd small
    by (simp only: like_once double_plus_one_above double_plus_one_below double_plus_one_small)
       simp
qed

subsection \<open>Create Post\<close>

lemma create_post_accepted:
  assumes "create_post now rnd t1 t2 st caller body = (st', Inr np)"
  obtains user postData where
    "caller = Some user" "body = Some postData"
    "newPost (post_id now rnd) user (kv_get st (''users:'' @ user_id user)) postData t1 t2 = Inr np"
    "st' = kv_set st (''posts:'' @ post_id now rnd) np"
  using assms
  by (auto simp: create_post_def Let_def split: option.splits sum.splits)

lemma newPost_excerpt:
  assumes "newPost postId user userData postData t1 t2 = Inr np"
  shows "opt_prop (Some np) ''excerpt'' =
           (if truthy_opt (fmlookup (own_props postData) ''excerpt'')
            then fmlookup (own_props postData) ''excerpt''
            else (case fmlookup (own_props postData) ''content'' of
                    Some (JStr s) \<Rightarrow> Some (JStr (take 200 s))
                  | _ \<Rightarrow> None))"
proof -
  from assms obtain ex where e: "excerpt_of postData = Inr ex"
    and n: "opt_prop (Some np) ''excerpt'' = ex"
    by (auto simp: newPost_def Let_def mk_obj_def opt_prop_def List.map_filter_simps
        split: if_splits sum.splits option.splits)
  from e show ?thesis
    unfolding n
    by (auto simp: excerpt_of_def Let_def content_substring_def
        split: if_splits option.splits json.splits)
qed

text \<open>
  C10 (as amended). After an accepted Create Post the record is stored under its generated
  id, and its \<^verbatim>\<open>excerpt\<close> is the body's \<^verbatim>\<open>excerpt\<close> unchanged when the body carries a
  truthy one (of any length); otherwise it is the first 200 code units of the body's
  \<^verbatim>\<open>content\<close> string, markup included, and absent when the body has no content.
\<close>

theorem create_post_excerpt:
  assumes "create_post now rnd t1 t2 st caller body = (st', Inr np)"
  shows "kv_get st' (''posts:'' @ post_id now rnd) = Some np
       \<and> opt_prop (Some np) ''excerpt'' =
           (if truthy_opt (opt_prop body ''excerpt'') then opt_prop body ''excerpt''
            else (case opt_prop body ''content'' of
                    Some (JStr s) \<Rightarrow> Some (JStr (take 200 s))
                  | _ \<Rightarrow> None))"
proof -
  from assms obtain user postData where
    b: "body = Some postData" and
    n: "newPost (post_id now rnd) user (kv_get st (''users:'' @ user_id user)) postData t1 t2 = Inr np" and
    s: "st' = kv_set st (''posts:'' @ post_id now rnd) np"
    by (rule create_post_accepted)
  have stored: "kv_get st' (''posts:'' @ post_id now rnd) = Some np"
    unfolding s by (rule kv_get_set)
  have bd: "opt_prop body k = fmlookup (own_props postData) k" for k
    unfolding b by (simp add: opt_prop_def)
  show ?thesis
    unfolding bd using stored newPost_excerpt [OF n] by simp
qed

lemma example_post_id: "post_id 1714557600000 ''0.4fzyo82mvyr'' = ''post_1714557600000_4fzyo82mv''"
  by (simp add: post_id_def substr_def show_nat.simps digit_char_def)

lemma example_create:
  "create_post 1714557600000 ''0.4fzyo82mvyr'' ''2024-05-01T10:00:00.000Z''
       ''2024-05-01T10:00:00.001Z'' example_store (Some example_author) (Some roundtrip_body)
     = (kv_set example_store ''posts:post_1714557600000_4fzyo82mv'' example_new_post,
        Inr example_new_post)"
  by (simp add: create_post_def Let_def example_post_id newPost_def excerpt_of_def
      content_substring_def truthy_opt_def js_or_def or_default_def opt_prop_def mk_obj_def
      List.map_filter_simps kv_get_def example_store_def example_author_def example_user_def
      roundtrip_body_def example_new_post_def)

theorem create_post_excerpt_witness:
  "create_post 1714557600000 ''0.4fzyo82mvyr'' ''2024-05-01T10:00:00.000Z''
       ''2024-05-01T10:00:00.001Z'' example_store (Some example_author) (Some roundtrip_body)
     = (kv_set example_store ''posts:post_1714557600000_4fzyo82mv'' example_new_post,
        Inr example_new_post)
   \<and> kv_get (kv_set example_store ''posts:post_1714557600000_4fzyo82mv'' example_new_post)
        ''posts:post_1714557600000_4fzyo82mv'' = Some example_new_post
   \<and> opt_prop (Some example_new_post) ''excerpt'' = Some (JStr ''<p>hi</p>'')"
proof -
  have e: "opt_prop (Some roundtrip_body) ''excerpt'' = None"
    by (simp add: opt_prop_def roundtrip_body_def)
  have c: "opt_prop (Some roundtrip_body) ''content'' = Some (JStr ''<p>hi</p>'')"
    by (simp add: opt_prop_def roundtrip_body_def)
  from create_post_excerpt [OF example_create] example_create
  show ?thesis
    by (simp add: e c example_post_id truthy_opt_def)
qed

text \<open>
  A body that brings its own excerpt of 201 characters is accepted, and the excerpt is
  stored as it came.
\<close>

theorem create_post_excerpt_counterexample:
  "\<not> isl (snd (create_post 1714557600000 ''0.4fzyo82mvyr'' ''2024-05-01T10:00:00.000Z''
       ''2024-05-01T10:00:00.001Z'' example_store (Some example_author) (Some long_excerpt_body)))
   \<and> opt_prop (kv_get (fst (create_post 1714557600000 ''0.4fzyo82mvyr'' ''2024-05-01T10:00:00.000Z''
       ''2024-05-01T10:00:00.001Z'' example_store (Some example_author) (Some long_excerpt_body)))
        ''posts:post_1714557600000_4fzyo82mv'') ''excerpt'' = Some (JStr (replicate 201 CHR ''a''))
   \<and> 200 < length (replicate 201 CHR ''a'')"
proof -
  let ?np = "newPost ''post_1714557600000_4fzyo82mv'' example_author
      (kv_get example_store (''users:'' @ user_id example_author)) long_excerpt_body
      ''2024-05-01T10:00:00.000Z'' ''2024-05-01T10:00:00.001Z''"
  have ex: "excerpt_of long_excerpt_body = Inr (Some (JStr (replicate 201 CHR ''a'')))"
    by (simp add: excerpt_of_def long_excerpt_body_def truthy_opt_def)
  have "\<exists>m. ?np = Inr (JObj m) \<and> fmlookup m ''excerpt'' = Some (JStr (replicate 201 CHR ''a''))"
    unfolding newPost_def ex by (simp add: long_excerpt_body_def mk_obj_def Let_def List.map_filter_simps split: option.splits)
  then obtain m where n: "?np = Inr (JObj m)"
    and l: "fmlookup m ''excerpt'' = Some (JStr (replicate 201 CHR ''a''))"
    by blast
  have c: "create_post 1714557600000 ''0.4fzyo82mvyr'' ''2024-05-01T10:00:00.000Z''
       ''2024-05-01T10:00:00.001Z'' example_store (Some example_author) (Some long_excerpt_body)
     = (kv_set example_store ''posts:post_1714557600000_4fzyo82mv'' (JObj m), Inr (JObj m))"
    using n by (simp add: create_post_def Let_def example_post_id)
  show ?thesis
    unfolding c by (simp add: kv_get_set opt_prop_def l)
qed

subsection \<open>Generated ids and the create-then-get round trip\<close>

lemma digit_char_is_digit: "d < 10 \<Longrightarrow> is_digit (digit_char d)"
  by (simp add: is_digit_def digit_char_def del: set_simps)

lemma show_nat_digits: "list_all is_digit (show_nat n)"
proof (induction n rule: show_nat.induct)
  case (1 n)
  show ?case
  proof (cases "n < 10")
    case True
    then show ?thesis
      by (simp add: show_nat.simps [of n] digit_char_is_digit)
  next
    case False
    with "1" show ?thesis
      by (simp add: show_nat.simps [of n] digit_char_is_digit)
  qed
qed

lemma show_nat_nonempty: "show_nat n \<noteq> []"
  by (simp add: show_nat.simps [of n])

lemma underscore_no_digit: "\<not> is_digit (CHR ''_'')"
  by (simp add: is_digit_def)

lemma matches_generated_id:
  assumes "an \<noteq> []" and "list_all is_alnum an"
  shows "matches_post_id (''post_'' @ show_nat n @ ''_'' @ an)"
proof -
  have d: "\<forall>c\<in>set (show_nat n). is_digit c"
    using show_nat_digits [of n] by (simp add: list_all_iff)
  have tw: "takeWhile is_digit (show_nat n @ CHR ''_'' # an) = show_nat n"
    using d underscore_no_digit by (simp add: takeWhile_tail takeWhile_eq_all_conv)
  have dw: "dropWhile is_digit (show_nat n @ CHR ''_'' # an) = CHR ''_'' # an"
    using d underscore_no_digit by (simp add: dropWhile_append2)
  show ?thesis
    using assms show_nat_nonempty [of n]
    by (simp add: matches_post_id_def starts_with_def tw dw)
qed

lemma post_id_matches:
  assumes "base36_fraction rnd"
  shows "matches_post_id (post_id now rnd)"
proof -
  from assms have ne: "take 9 (drop 2 rnd) \<noteq> []"
    by (simp add: base36_fraction_def)
  from assms have "list_all is_base36 (take 9 (drop 2 rnd))"
    by (auto simp: base36_fraction_def list_all_iff dest: in_set_takeD)
  then have al: "list_all is_alnum (take 9 (drop 2 rnd))"
    by (simp add: list_all_iff is_alnum_def)
  show ?thesis
    unfolding post_id_def substr_def by (rule matches_generated_id [OF ne al])
qed

lemma newPost_fields:
  assumes "newPost postId user userData postData t1 t2 = Inr np"
  shows "truthy np
       \<and> opt_prop (Some np) ''id'' = Some (JStr postId)
       \<and> opt_prop (Some np) ''title'' = fmlookup (own_props postData) ''title''
       \<and> opt_prop (Some np) ''content'' = fmlookup (own_props postData) ''content''
       \<and> opt_prop (Some np) ''tags''
           = Some (or_default (fmlookup (own_props postData) ''tags'') (JArr []))"
  using assms
  by (auto simp: newPost_def Let_def mk_obj_def opt_prop_def List.map_filter_simps
      split: if_splits sum.splits option.splits)

lemma create_post_roundtrip:
  assumes "create_post now rnd t1 t2 st caller body = (st', Inr np)"
  shows "get_post st' (post_id now rnd) = Inr np
       \<and> opt_prop (Some np) ''id'' = Some (JStr (post_id now rnd))
       \<and> opt_prop (Some np) ''title'' = opt_prop body ''title''
       \<and> opt_prop (Some np) ''content'' = opt_prop body ''content''
       \<and> opt_prop (Some np) ''tags'' = Some (or_default (opt_prop body ''tags'') (JArr []))"
proof -
  from assms obtain user postData where
    b: "body = Some postData" and
    n: "newPost (post_id now rnd) user (kv_get st (''users:'' @ user_id user)) postData t1 t2 = Inr np" and
    s: "st' = kv_set st (''posts:'' @ post_id now rnd) np"
    by (rule create_post_accepted)
  note f = newPost_fields [OF n]
  have g: "get_post st' (post_id now rnd) = Inr np"
    unfolding get_post_def s using f by (simp only: kv_get_set) simp
  have bd: "opt_prop body k = fmlookup (own_props postData) k" for k
    unfolding b by (simp add: opt_prop_def)
  show ?thesis
    unfolding bd using g f by simp
qed

lemma create_post_roundtrip_body:
  "\<exists>st' np. create_post now rnd t1 t2 st (Some user) (Some roundtrip_body) = (st', Inr np)"
proof -
  have "\<exists>np. newPost (post_id now rnd) user (kv_get st (''users:'' @ user_id user))
      roundtrip_body t1 t2 = Inr np"
    by (simp add: newPost_def excerpt_of_def content_substring_def truthy_opt_def
        roundtrip_body_def Let_def)
  then show ?thesis
    by (auto simp: create_post_def Let_def)
qed

lemma roundtrip_body_fields:
  "opt_prop (Some roundtrip_body) ''title'' = Some (JStr ''T'')
   \<and> opt_prop (Some roundtrip_body) ''content'' = Some (JStr ''<p>hi</p>'')
   \<and> or_default (opt_prop (Some roundtrip_body) ''tags'') (JArr []) = JArr [JStr ''x'', JStr ''y'']"
  by (simp add: opt_prop_def roundtrip_body_def or_default_def)

lemma post_id_shape:
  "\<exists>ds. ds \<noteq> [] \<and> list_all is_digit ds \<and> post_id now rnd = ''post_'' @ ds @ ''_'' @ substr 2 9 rnd"
  using show_nat_nonempty [of now] show_nat_digits [of now]
  by (auto simp: post_id_def)

text \<open>
  C7 (as amended). For every authenticated caller, store, clock reading and random string,
  Create Post with the body \<^verbatim>\<open>{title: "T", content: "<p>hi</p>", tags: ["x","y"]}\<close> succeeds,
  Get Post on the id of the returned record yields that record, and its title, content and
  tags are the ones sent. The same holds for every body that Create Post accepts: the
  record read back carries the body's title and content and the body's tags (or the empty
  array when the body has none). The id is \<^verbatim>\<open>post_\<close>, the decimal digits of the clock
  reading, an underscore, and the up to nine characters that follow the first two of the
  random string; it matches \<^verbatim>\<open>post_<digits>_<alnum>\<close> when the random string is \<^verbatim>\<open>0.\<close>
  followed by one or more base-36 digits, the rendering of a non-zero random number.
\<close>
theorem create_then_get_roundtrip:
  "(\<exists>st' np. create_post now rnd t1 t2 st (Some user) (Some roundtrip_body) = (st', Inr np)
       \<and> get_post st' (post_id now rnd) = Inr np
       \<and> opt_prop (Some np) ''id'' = Some (JStr (post_id now rnd))
       \<and> opt_prop (Some np) ''title'' = Some (JStr ''T'')
       \<and> opt_prop (Some np) ''content'' = Some (JStr ''<p>hi</p>'')
       \<and> opt_prop (Some np) ''tags'' = Some (JArr [JStr ''x'', JStr ''y'']))
   \<and> (create_post now rnd t1 t2 st caller body = (st1, Inr np1) \<longrightarrow>
         get_post st1 (post_id now rnd) = Inr np1
       \<and> opt_prop (Some np1) ''id'' = Some (JStr (post_id now rnd))
       \<and> opt_prop (Some np1) ''title'' = opt_prop body ''title''
       \<and> opt_prop (Some np1) ''content'' = opt_prop body ''content''
       \<and> opt_prop (Some np1) ''tags'' = Some (or_default (opt_prop body ''tags'') (JArr [])))
   \<and> (\<exists>ds. ds \<noteq> [] \<and> list_all is_digit ds
          \<and> post_id now rnd = ''post_'' @ ds @ ''_'' @ substr 2 9 rnd)
   \<and> (base36_fraction rnd \<longrightarrow> matches_post_id (post_id now rnd))"
proof -
  obtain st' np where
    c: "create_post now rnd t1 t2 st (Some user) (Some roundtrip_body) = (st', Inr np)"
    using create_post_roundtrip_body by blast
  have first: "\<exists>st' np. create_post now rnd t1 t2 st (Some user) (Some roundtrip_body) = (st', Inr np)
       \<and> get_post st' (post_id now rnd) = Inr np
       \<and> opt_prop (Some np) ''id'' = Some (JStr (post_id now rnd))
       \<and> opt_prop (Some np) ''title'' = Some (JStr ''T'')
       \<and> opt_prop (Some np) ''content'' = Some (JStr ''<p>hi</p>'')
       \<and> opt_prop (Some np) ''tags'' = Some (JArr [JStr ''x'', JStr ''y''])"
    using c create_post_roundtrip [OF c] roundtrip_body_fields by auto
  show ?thesis
    using first create_post_roundtrip [of now rnd t1 t2 st caller body st1 np1]
      post_id_shape [of now rnd] post_id_matches [of rnd now]
    by blast
qed

theorem create_then_get_roundtrip_witness:
  "base36_fraction ''0.4fzyo82mvyr''
   \<and> create_post 1714557600000 ''0.4fzyo82mvyr'' ''2024-05-01T10:00:00.000Z''
       ''2024-05-01T10:00:00.001Z'' example_store (Some example_author) (Some roundtrip_body)
     = (kv_set example_store ''posts:post_1714557600000_4fzyo82mv'' example_new_post,
        Inr example_new_post)
   \<and> get_post (kv_set example_store ''posts:post_1714557600000_4fzyo82mv'' example_new_post)
        ''post_1714557600000_4fzyo82mv'' = Inr example_new_post
   \<and> opt_prop (Some example_new_post) ''title'' = Some (JStr ''T'')
   \<and> opt_prop (Some example_new_post) ''content'' = Some (JStr ''<p>hi</p>'')
   \<and> opt_prop (Some example_new_post) ''tags'' = Some (JArr [JStr ''x'', JStr ''y''])
   \<and> matches_post_id ''post_1714557600000_4fzyo82mv''"
proof -
  have b: "base36_fraction ''0.4fzyo82mvyr''"
    by (simp add: base36_fraction_def starts_with_def is_base36_def)
  from create_then_get_roundtrip [where now = 1714557600000 and rnd = "''0.4fzyo82mvyr''"
      and ?t1.0 = "''2024-05-01T10:00:00.000Z''" and ?t2.0 = "''2024-05-01T10:00:00.001Z''"
      and st = example_store and user = example_author and caller = "Some example_author"
      and body = "Some roundtrip_body"
      and ?st1.0 = "kv_set example_store ''posts:post_1714557600000_4fzyo82mv'' example_new_post"
      and ?np1.0 = example_new_post]
    b example_create roundtrip_body_fields
  show ?thesis
    by (simp add: example_post_id)
qed

text \<open>
  A random number of exactly zero renders as \<^verbatim>\<open>0\<close>, of which \<^verbatim>\<open>substr(2, 9)\<close> is empty:
  the post is created and read back under an id that ends with the second underscore.
\<close>
theorem create_then_get_roundtrip_counterexample:
  "\<not> isl (snd (create_post 1714557600000 ''0'' ''2024-05-01T10:00:00.000Z''
       ''2024-05-01T10:00:00.001Z'' example_store (Some example_author) (Some roundtrip_body)))
   \<and> get_post (fst (create_post 1714557600000 ''0'' ''2024-05-01T10:00:00.000Z''
       ''2024-05-01T10:00:00.001Z'' example_store (Some example_author) (Some roundtrip_body)))
        ''post_1714557600000_''
     = snd (create_post 1714557600000 ''0'' ''2024-05-01T10:00:00.000Z''
       ''2024-05-01T10:00:00.001Z'' example_store (Some example_author) (Some roundtrip_body))
   \<and> opt_prop (kv_get (fst (create_post 1714557600000 ''0'' ''2024-05-01T10:00:00.000Z''
       ''2024-05-01T10:00:00.001Z'' example_store (Some example_author) (Some roundtrip_body)))
        ''posts:post_1714557600000_'') ''id'' = Some (JStr ''post_1714557600000_'')
   \<and> \<not> matches_post_id ''post_1714557600000_''"
proof -
  have i: "post_id 1714557600000 ''0'' = ''post_1714557600000_''"
    by (simp add: post_id_def substr_def show_nat.simps digit_char_def)
  obtain st' np where
    c: "create_post 1714557600000 ''0'' ''2024-05-01T10:00:00.000Z''
       ''2024-05-01T10:00:00.001Z'' example_store (Some example_author) (Some roundtrip_body)
        = (st', Inr np)"
    using create_post_roundtrip_body by blast
  from c obtain user postData where
    s: "st' = kv_set example_store (''posts:'' @ post_id 1714557600000 ''0'') np"
    by (rule create_post_accepted)
  have k: "kv_get st' ''posts:post_1714557600000_'' = Some np"
    unfolding s i by (simp only: kv_get_set append.simps)
  have m: "\<not> matches_post_id ''post_1714557600000_''"
    by (simp add: matches_post_id_def starts_with_def is_digit_def)
  show ?thesis
    using create_post_roundtrip [OF c] k m by (simp add: c i)
qed

subsection \<open>List Posts\<close>

lemma filter_err_Inr:
  "filter_err f xs = Inr ys \<Longrightarrow> ys = filter (\<lambda>x. f x = Inr True) xs"
  by (induction xs arbitrary: ys) (auto split: sum.splits if_splits)

lemma set_insert_by: "set (insert_by cmp x xs) = insert x (set xs)"
  by (induction xs) auto

lemma set_sort_by: "set (sort_by cmp xs) = set xs"
  unfolding sort_by_def by (induction xs) (simp_all add: set_insert_by)

lemma sort_posts_Inr: "sort_posts getTime xs = Inr ys \<Longrightarrow> set ys = set xs"
  by (auto simp: sort_posts_def set_sort_by split: if_splits)

lemma filtered_posts_unauthenticated:
  assumes "filtered_posts lower st None q = Inr ps" and "p \<in> set ps"
  shows "status_published p = Inr True"
proof -
  from assms(1) obtain p1 p2 p3 where
    s1: "filter_err status_published (kv_getByPrefix st ''posts:'') = Inr p1" and
    s2: "(if nonempty (category q)
          then filter_err (in_field ''categories'' (the (category q))) p1 else Inr p1) = Inr p2" and
    s3: "(if nonempty (tag q)
          then filter_err (in_field ''tags'' (the (tag q))) p2 else Inr p2) = Inr p3" and
    s4: "(if nonempty (search q)
          then filter_err (search_match lower (lower (the (search q)))) p3 else Inr p3) = Inr ps"
    by (auto simp: filtered_posts_def Let_def split: sum.splits)
  from s4 have "set ps \<subseteq> set p3"
    by (auto dest: filter_err_Inr split: if_splits)
  moreover from s3 have "set p3 \<subseteq> set p2"
    by (auto dest: filter_err_Inr split: if_splits)
  moreover from s2 have "set p2 \<subseteq> set p1"
    by (auto dest: filter_err_Inr split: if_splits)
  ultimately have "p \<in> set p1"
    using assms(2) by blast
  with filter_err_Inr [OF s1] show ?thesis
    by simp
qed

text \<open>
  C4. Whatever the store and the query, every record in the array that List Posts returns
  to a caller without identity has the status \<^verbatim>\<open>published\<close>; none has the status \<^verbatim>\<open>draft\<close>.
\<close>

theorem list_posts_unauthenticated_no_draft:
  assumes "list_posts lower getTime st None q = Inr posts" and "p \<in> set posts"
  shows "get_prop p ''status'' = Inr (Some (JStr ''published''))
       \<and> get_prop p ''status'' \<noteq> Inr (Some (JStr ''draft''))"
proof -
  from assms(1) obtain p4 p5 where
    f: "filtered_posts lower st None q = Inr p4" and
    g: "(if featured q = Some ''true'' then filter_err featured_true p4 else Inr p4) = Inr p5" and
    s: "sort_posts getTime p5 = Inr posts"
    by (auto simp: list_posts_def split: sum.splits)
  from g have "set p5 \<subseteq> set p4"
    by (auto dest: filter_err_Inr split: if_splits)
  with sort_posts_Inr [OF s] assms(2) have "p \<in> set p4"
    by blast
  then have "status_published p = Inr True"
    by (rule filtered_posts_unauthenticated [OF f])
  then show ?thesis
    by (auto simp: status_published_def split: sum.splits)
qed

lemma example_listing:
  "kv_getByPrefix example_listing_store ''posts:'' = [example_post, example_published]"
  by (simp add: kv_getByPrefix_def example_listing_store_def example_store_def starts_with_def)

lemma example_filtered:
  "filtered_posts lower example_listing_store None (no_filters\<lparr>featured := f\<rparr>)
     = Inr [example_published]"
  by (simp add: filtered_posts_def example_listing status_published_def get_prop_def nonempty_def
      no_filters_def example_post_def example_published_def)

lemma example_list_posts:
  "list_posts ascii_lower no_time example_listing_store None no_filters = Inr [example_published]"
  using example_filtered [of ascii_lower None]
  by (simp add: list_posts_def no_filters_def sort_posts_def sort_by_def)

theorem list_posts_unauthenticated_no_draft_witness:
  "list_posts ascii_lower no_time example_listing_store None no_filters = Inr [example_published]
   \<and> example_post \<in> set (kv_getByPrefix example_listing_store ''posts:'')
   \<and> get_prop example_post ''status'' = Inr (Some (JStr ''draft''))
   \<and> get_prop example_published ''status'' = Inr (Some (JStr ''published''))"
proof -
  have m: "example_published \<in> set [example_published]"
    by simp
  have d: "get_prop example_post ''status'' = Inr (Some (JStr ''draft''))"
    by (simp add: get_prop_def example_post_def)
  from list_posts_unauthenticated_no_draft [OF example_list_posts m] d
  show ?thesis
    by (simp add: example_list_posts example_listing)
qed

text \<open>
  C9 (as amended). When the query parameter \<^verbatim>\<open>featured\<close> is the string \<^verbatim>\<open>true\<close>, a post is in
  the result of List Posts exactly when it survives the visibility, category, tag and
  search filters and its \<^verbatim>\<open>featured\<close> field is the boolean \<^verbatim>\<open>true\<close>. For every other value
  of the parameter, \<^verbatim>\<open>false\<close> included, the result holds exactly the posts that survive
  those filters, whatever their \<^verbatim>\<open>featured\<close> field.
\<close>

theorem list_posts_featured:
  assumes "filtered_posts lower st caller q = Inr p4"
    and "list_posts lower getTime st caller q = Inr posts"
  shows "set posts =
           (if featured q = Some ''true''
            then {p \<in> set p4. fmlookup (own_props p) ''featured'' = Some (JBool True)}
            else set p4)"
proof (cases "featured q = Some ''true''")
  case True
  with assms obtain p5 where
    g: "filter_err featured_true p4 = Inr p5" and s: "sort_posts getTime p5 = Inr posts"
    by (auto simp: list_posts_def split: sum.splits)
  have "featured_true p = Inr True \<longleftrightarrow> fmlookup (own_props p) ''featured'' = Some (JBool True)"
    if "p \<in> set p4" for p
  proof -
    from g that have "featured_true p \<noteq> Inl InternalError"
      by (induction p4 arbitrary: p5) (auto split: sum.splits error.splits)
    then show ?thesis
      by (auto simp: featured_true_def get_prop_def split: if_splits)
  qed
  with filter_err_Inr [OF g] sort_posts_Inr [OF s] True show ?thesis
    by auto
next
  case False
  with assms have "sort_posts getTime p4 = Inr posts"
    by (simp add: list_posts_def)
  with False show ?thesis
    by (simp add: sort_posts_Inr)
qed

lemma example_list_featured:
  "list_posts ascii_lower no_time example_listing_store None (no_filters\<lparr>featured := Some f\<rparr>)
     = Inr [example_published]"
  using example_filtered [of ascii_lower "Some f"]
  by (simp add: list_posts_def no_filters_def sort_posts_def sort_by_def featured_true_def
      get_prop_def example_published_def)

theorem list_posts_featured_witness:
  "list_posts ascii_lower no_time example_listing_store None (no_filters\<lparr>featured := Some ''true''\<rparr>)
     = Inr [example_published]
   \<and> filtered_posts ascii_lower example_listing_store None (no_filters\<lparr>featured := Some ''true''\<rparr>)
     = Inr [example_published]
   \<and> set [example_published] =
       {p \<in> set [example_published]. fmlookup (own_props p) ''featured'' = Some (JBool True)}"
proof -
  have q: "featured (no_filters\<lparr>featured := Some ''true''\<rparr>) = Some ''true''"
    by simp
  from list_posts_featured [OF example_filtered [of ascii_lower "Some ''true''"]
      example_list_featured [of "''true''"]]
  show ?thesis
    by (simp add: q example_filtered example_list_featured)
qed

text \<open>
  With \<^verbatim>\<open>featured=false\<close> the handler applies no filter on the field: the published example
  post, whose \<^verbatim>\<open>featured\<close> is \<^verbatim>\<open>true\<close>, is returned.
\<close>

theorem list_posts_featured_counterexample:
  "list_posts ascii_lower no_time example_listing_store None (no_filters\<lparr>featured := Some ''false''\<rparr>)
     = Inr [example_published]
   \<and> get_prop example_published ''featured'' = Inr (Some (JBool True))
   \<and> JBool True \<noteq> JBool False"
  by (simp add: example_list_featured get_prop_def example_published_def)

subsection \<open>Categories and Tags\<close>

lemma set_foldl_set_add: "set (foldl set_add acc xs) = set acc \<union> set xs"
  by (induction xs arbitrary: acc) (auto simp: set_add_def)

lemma collect_Inr:
  assumes "collect f posts acc = Inr s"
  shows "set acc \<subseteq> set s
       \<and> (\<forall>post\<in>set posts. \<forall>xs. fmlookup (own_props post) f = Some (JArr xs) \<longrightarrow> set xs \<subseteq> set s)"
  using assms
proof (induction posts arbitrary: acc)
  case Nil
  then show ?case by simp
next
  case (Cons post posts)
  show ?case
  proof (cases "truthy_opt (fmlookup (own_props post) f)")
    case False
    with Cons.prems have "collect f posts acc = Inr s"
      by (simp add: get_prop_def split: if_splits)
    from Cons.IH [OF this] False show ?thesis
      by (auto simp: truthy_opt_def)
  next
    case True
    with Cons.prems obtain xs where
      x: "fmlookup (own_props post) f = Some (JArr xs)" and
      c: "collect f posts (foldl set_add acc xs) = Inr s"
      by (auto simp: get_prop_def split: if_splits option.splits json.splits)
    from Cons.IH [OF c] x show ?thesis
      by (auto simp: set_foldl_set_add)
  qed
qed

lemma keyed_Inr: "keyed numstr xs = Inr ks \<Longrightarrow> map snd ks = xs"
  by (induction xs arbitrary: ks) (auto split: sum.splits)

lemma sort_default_Inr:
  assumes "sort_default numstr xs = Inr ys"
  shows "set ys = set xs"
proof (cases "length xs < 2")
  case True
  with assms show ?thesis by (simp add: sort_default_def)
next
  case False
  with assms obtain ks where k: "keyed numstr xs = Inr ks" and y: "ys = map snd (sort_by by_key ks)"
    by (auto simp: sort_default_def split: sum.splits)
  have "set ys = snd ` set ks"
    by (simp add: y set_sort_by)
  also have "\<dots> = set (map snd ks)"
    by simp
  finally show ?thesis
    by (simp add: keyed_Inr [OF k])
qed

lemma list_field_includes:
  assumes "list_field numstr f st = Inr r" and "(k, post) \<in> set st" and "starts_with k ''posts:''"
    and "fmlookup (own_props post) f = Some (JArr xs)" and "x \<in> set xs"
  shows "x \<in> set r"
proof -
  from assms(1) obtain s where
    c: "collect f (kv_getByPrefix st ''posts:'') [] = Inr s" and d: "sort_default numstr s = Inr r"
    by (auto simp: list_field_def split: sum.splits)
  from assms(2,3) have "post \<in> set (kv_getByPrefix st ''posts:'')"
    by (force simp: kv_getByPrefix_def)
  with collect_Inr [OF c] assms(4,5) have "x \<in> set s"
    by blast
  with sort_default_Inr [OF d] show ?thesis
    by simp
qed

text \<open>
  C5. Neither listing looks at the caller or at the status of a post: for every store, a
  value in the \<^verbatim>\<open>categories\<close> array (in the \<^verbatim>\<open>tags\<close> array) of a stored post whose status
  is \<^verbatim>\<open>draft\<close> is in the array the Categories (the Tags) listing returns. So storing a
  draft post can change what a caller without identity is shown.
\<close>

theorem categories_tags_include_drafts:
  assumes "(k, post) \<in> set st" and "starts_with k ''posts:''"
    and "fmlookup (own_props post) ''status'' = Some (JStr ''draft'')"
  shows "(list_categories numstr st = Inr r \<and> fmlookup (own_props post) ''categories'' = Some (JArr cs)
            \<and> c \<in> set cs \<longrightarrow> c \<in> set r)
       \<and> (list_tags numstr st = Inr r' \<and> fmlookup (own_props post) ''tags'' = Some (JArr ts)
            \<and> t \<in> set ts \<longrightarrow> t \<in> set r')"
  using assms(1,2)
  by (auto simp: list_categories_def list_tags_def dest: list_field_includes)

lemma example_categories:
  "list_categories nat_numstr example_listing_store = Inr [JStr ''A'', JStr ''B'']"
  by (simp add: list_categories_def list_field_def example_listing get_prop_def truthy_opt_def
      example_post_def example_published_def set_add_def is_reference_def sort_default_def
      sort_by_def by_key_def)

lemma example_tags:
  "list_tags nat_numstr example_listing_store = Inr [JStr ''x'', JStr ''y'']"
  by (simp add: list_tags_def list_field_def example_listing get_prop_def truthy_opt_def
      example_post_def example_published_def set_add_def is_reference_def sort_default_def
      sort_by_def by_key_def)

theorem categories_tags_include_drafts_witness:
  "list_categories nat_numstr example_listing_store = Inr [JStr ''A'', JStr ''B'']
   \<and> list_tags nat_numstr example_listing_store = Inr [JStr ''x'', JStr ''y'']
   \<and> list_categories nat_numstr [(''posts:p2'', example_published)] = Inr [JStr ''A'']
   \<and> list_tags nat_numstr [(''posts:p2'', example_published)] = Inr [JStr ''y'']
   \<and> fmlookup (own_props example_post) ''status'' = Some (JStr ''draft'')
   \<and> JStr ''B'' \<in> set [JStr ''A'', JStr ''B''] \<and> JStr ''x'' \<in> set [JStr ''x'', JStr ''y'']"
proof -
  have m: "(''posts:p1'', example_post) \<in> set example_listing_store"
    by (simp add: example_listing_store_def example_store_def)
  have p: "starts_with ''posts:p1'' ''posts:''"
    by (simp add: starts_with_def)
  have d: "fmlookup (own_props example_post) ''status'' = Some (JStr ''draft'')"
    by (simp add: example_post_def)
  have c: "fmlookup (own_props example_post) ''categories'' = Some (JArr [JStr ''B''])"
    by (simp add: example_post_def)
  have t: "fmlookup (own_props example_post) ''tags'' = Some (JArr [JStr ''x''])"
    by (simp add: example_post_def)
  have one: "list_categories nat_numstr [(''posts:p2'', example_published)] = Inr [JStr ''A'']
      \<and> list_tags nat_numstr [(''posts:p2'', example_published)] = Inr [JStr ''y'']"
    by (simp add: list_categories_def list_tags_def list_field_def kv_getByPrefix_def
        starts_with_def get_prop_def truthy_opt_def example_published_def set_add_def
        is_reference_def sort_default_def)
  from categories_tags_include_drafts [OF m p d, of nat_numstr "[JStr ''A'', JStr ''B'']" "[JStr ''B'']"
      "JStr ''B''" "[JStr ''x'', JStr ''y'']" "[JStr ''x'']" "JStr ''x''"]
    example_categories example_tags c t one d
  show ?thesis
    by simp
qed

end
